theory Spec2Isabelle
  imports Main "HOL-Library.Word"
begin

section \<open>Machine types and raw memory\<close>

text \<open>
  The program is C: \<open>uint8_t\<close>, \<open>uint16_t\<close> and \<open>uint32_t\<close> are words whose
  arithmetic wraps around.  A page buffer is addressed through \<open>void*\<close> pointers plus
  byte offsets; it is modelled as the memory seen from the buffer's base address, a
  function from byte offsets to bytes.  Offsets below \<open>PAGE_SIZE\<close> lie inside the
  buffer.  Multi-byte integers are copied with their in-memory representation, which
  is little-endian on the machines the program is written for.
\<close>

type_synonym u8 = "8 word"
type_synonym u16 = "16 word"
type_synonym u32 = "32 word"
type_synonym page = "nat \<Rightarrow> u8"

definition load_bytes :: "page \<Rightarrow> nat \<Rightarrow> nat \<Rightarrow> u8 list" where
  "load_bytes mem a n = map mem [a ..< a + n]"

definition store_bytes :: "page \<Rightarrow> nat \<Rightarrow> u8 list \<Rightarrow> page" where
  "store_bytes mem a bs = (\<lambda>x. if a \<le> x \<and> x < a + length bs then bs ! (x - a) else mem x)"

text \<open>\<open>memcpy(dst_mem + dst, src_mem + src, n)\<close> for buffers that do not overlap.\<close>

definition memcpy :: "page \<Rightarrow> nat \<Rightarrow> page \<Rightarrow> nat \<Rightarrow> nat \<Rightarrow> page" where
  "memcpy dst_mem dst src_mem src n = store_bytes dst_mem dst (load_bytes src_mem src n)"

definition u32_bytes :: "u32 \<Rightarrow> u8 list" where
  "u32_bytes w =
     [of_nat (unat w mod 256), of_nat (unat w div 256 mod 256),
      of_nat (unat w div 65536 mod 256), of_nat (unat w div 16777216 mod 256)]"

definition bytes_u32 :: "u8 list \<Rightarrow> u32" where
  "bytes_u32 bs =
     of_nat (unat (bs ! 0) + 256 * unat (bs ! 1) + 65536 * unat (bs ! 2)
             + 16777216 * unat (bs ! 3))"

definition read_u8 :: "page \<Rightarrow> nat \<Rightarrow> u8" where
  "read_u8 mem a = mem a"

definition write_u8 :: "page \<Rightarrow> nat \<Rightarrow> u8 \<Rightarrow> page" where
  "write_u8 mem a v = store_bytes mem a [v]"

definition read_u32 :: "page \<Rightarrow> nat \<Rightarrow> u32" where
  "read_u32 mem a = bytes_u32 (load_bytes mem a 4)"

definition write_u32 :: "page \<Rightarrow> nat \<Rightarrow> u32 \<Rightarrow> page" where
  "write_u32 mem a v = store_bytes mem a (u32_bytes v)"

section \<open>Rows and layout constants\<close>

definition COLUMN_USERNAME_SIZE :: nat where "COLUMN_USERNAME_SIZE = 32"
definition COLUMN_EMAIL_SIZE :: nat where "COLUMN_EMAIL_SIZE = 255"
definition TABLE_MAX_PAGES :: u32 where "TABLE_MAX_PAGES = 100"

text \<open>
  \<open>struct Row\<close>: the two character arrays have \<open>COLUMN_USERNAME_SIZE + 1\<close> and
  \<open>COLUMN_EMAIL_SIZE + 1\<close> bytes.  The field \<open>id\<close> is called \<open>row_id\<close> here.
\<close>

record Row =
  row_id :: u32
  username :: "u8 list"
  email :: "u8 list"

definition PAGE_SIZE :: u32 where "PAGE_SIZE = 4096"
definition ID_SIZE :: u32 where "ID_SIZE = 4"
definition USERNAME_SIZE :: u32 where "USERNAME_SIZE = of_nat (COLUMN_USERNAME_SIZE + 1)"
definition EMAIL_SIZE :: u32 where "EMAIL_SIZE = of_nat (COLUMN_EMAIL_SIZE + 1)"
definition ID_OFFSET :: u32 where "ID_OFFSET = 0"
definition USERNAME_OFFSET :: u32 where "USERNAME_OFFSET = ID_OFFSET + ID_SIZE"
definition EMAIL_OFFSET :: u32 where "EMAIL_OFFSET = USERNAME_OFFSET + USERNAME_SIZE"
definition ROW_SIZE :: u32 where "ROW_SIZE = ID_SIZE + USERNAME_SIZE + EMAIL_SIZE"

text \<open>Common node header layout.\<close>

definition NODE_TYPE_SIZE :: u32 where "NODE_TYPE_SIZE = 1"
definition NODE_TYPE_OFFSET :: u32 where "NODE_TYPE_OFFSET = 0"
definition IS_ROOT_SIZE :: u32 where "IS_ROOT_SIZE = 1"
definition IS_ROOT_OFFSET :: u32 where "IS_ROOT_OFFSET = NODE_TYPE_SIZE"
definition PARENT_POINTER_SIZE :: u32 where "PARENT_POINTER_SIZE = 4"
definition PARENT_POINTER_OFFSET :: u32 where
  "PARENT_POINTER_OFFSET = IS_ROOT_OFFSET + IS_ROOT_SIZE"
definition COMMON_NODE_HEADER_SIZE :: u32 where
  "COMMON_NODE_HEADER_SIZE = NODE_TYPE_SIZE + IS_ROOT_SIZE + PARENT_POINTER_OFFSET"

text \<open>Leaf node header and body layout.\<close>

definition LEAF_NODE_NUM_CELLS_SIZE :: u32 where "LEAF_NODE_NUM_CELLS_SIZE = 4"
definition LEAF_NODE_NUM_CELLS_OFFSET :: u32 where
  "LEAF_NODE_NUM_CELLS_OFFSET = COMMON_NODE_HEADER_SIZE"
definition LEAF_NODE_HEADER_SIZE :: u32 where
  "LEAF_NODE_HEADER_SIZE = COMMON_NODE_HEADER_SIZE + LEAF_NODE_NUM_CELLS_SIZE"
definition LEAF_NODE_KEY_SIZE :: u32 where "LEAF_NODE_KEY_SIZE = 4"
definition LEAF_NODE_KEY_OFFSET :: u32 where "LEAF_NODE_KEY_OFFSET = 0"
definition LEAF_NODE_VALUE_SIZE :: u32 where "LEAF_NODE_VALUE_SIZE = ROW_SIZE"
definition LEAF_NODE_VALUE_OFFSET :: u32 where
  "LEAF_NODE_VALUE_OFFSET = LEAF_NODE_KEY_OFFSET + LEAF_NODE_KEY_SIZE"
definition LEAF_NODE_CELL_SIZE :: u32 where
  "LEAF_NODE_CELL_SIZE = LEAF_NODE_KEY_SIZE + LEAF_NODE_VALUE_SIZE"
definition LEAF_NODE_SPACE_FOR_CELLS :: u32 where
  "LEAF_NODE_SPACE_FOR_CELLS = PAGE_SIZE - LEAF_NODE_HEADER_SIZE"
definition LEAF_NODE_MAX_CELLS :: u32 where
  "LEAF_NODE_MAX_CELLS = LEAF_NODE_SPACE_FOR_CELLS div LEAF_NODE_CELL_SIZE"
definition LEAF_NODE_RIGHT_SPLIT_COUNT :: u32 where
  "LEAF_NODE_RIGHT_SPLIT_COUNT = (LEAF_NODE_MAX_CELLS + 1) div 2"
definition LEAF_NODE_LEFT_SPLIT_COUNT :: u32 where
  "LEAF_NODE_LEFT_SPLIT_COUNT = (LEAF_NODE_MAX_CELLS + 1) - LEAF_NODE_RIGHT_SPLIT_COUNT"

text \<open>
  Modelled from the spec: the constant \<open>LEAF_NODE_SPLIT_COUNT\<close>, which
  \<open>leaf_node_split_and_insert\<close> compares the loop index with, is declared nowhere in
  the source.  The specification's placement rule sends logical position \<open>i\<close> to the
  right leaf when \<open>i \<ge> LEFT_SPLIT_COUNT\<close>.
\<close>

definition LEAF_NODE_SPLIT_COUNT :: u32 where
  "LEAF_NODE_SPLIT_COUNT = LEAF_NODE_LEFT_SPLIT_COUNT"

text \<open>Internal node header and body layout.\<close>

definition INTERNAL_NODE_NUM_KEYS_SIZE :: u32 where "INTERNAL_NODE_NUM_KEYS_SIZE = 4"
definition INTERNAL_NODE_NUM_KEYS_OFFSET :: u32 where
  "INTERNAL_NODE_NUM_KEYS_OFFSET = COMMON_NODE_HEADER_SIZE"
definition INTERNAL_NODE_RIGHT_CHILD_SIZE :: u32 where "INTERNAL_NODE_RIGHT_CHILD_SIZE = 4"
definition INTERNAL_NODE_RIGHT_CHILD_OFFSET :: u32 where
  "INTERNAL_NODE_RIGHT_CHILD_OFFSET = INTERNAL_NODE_NUM_KEYS_OFFSET + INTERNAL_NODE_NUM_KEYS_SIZE"
definition INTERNAL_NODE_HEADER_SIZE :: u32 where
  "INTERNAL_NODE_HEADER_SIZE =
     COMMON_NODE_HEADER_SIZE + INTERNAL_NODE_NUM_KEYS_SIZE + INTERNAL_NODE_RIGHT_CHILD_SIZE"
definition INTERNAL_NODE_KEY_SIZE :: u32 where "INTERNAL_NODE_KEY_SIZE = 4"
definition INTERNAL_NODE_CHILD_SIZE :: u32 where "INTERNAL_NODE_CHILD_SIZE = 4"
definition INTERNAL_NODE_CELL_SIZE :: u32 where
  "INTERNAL_NODE_CELL_SIZE = INTERNAL_NODE_CHILD_SIZE + INTERNAL_NODE_KEY_SIZE"

section \<open>Row codec\<close>

text \<open>
  Each \<open>memcpy\<close> copies the whole field: \<open>ID_SIZE\<close>, \<open>USERNAME_SIZE\<close> and
  \<open>EMAIL_SIZE\<close> bytes.  The destination is a position in a page.
\<close>

definition serialize_row :: "Row \<Rightarrow> page \<Rightarrow> nat \<Rightarrow> page" where
  "serialize_row source mem destination =
     (let mem1 = store_bytes mem (destination + unat ID_OFFSET)
                   (take (unat ID_SIZE) (u32_bytes (row_id source)));
          mem2 = store_bytes mem1 (destination + unat USERNAME_OFFSET)
                   (take (unat USERNAME_SIZE) (username source));
          mem3 = store_bytes mem2 (destination + unat EMAIL_OFFSET)
                   (take (unat EMAIL_SIZE) (email source))
      in mem3)"

definition deserialize_row :: "page \<Rightarrow> nat \<Rightarrow> Row \<Rightarrow> Row" where
  "deserialize_row mem source destination =
     destination
       \<lparr> row_id := bytes_u32 (load_bytes mem (source + unat ID_OFFSET) (unat ID_SIZE)),
         username := load_bytes mem (source + unat USERNAME_OFFSET) (unat USERNAME_SIZE),
         email := load_bytes mem (source + unat EMAIL_OFFSET) (unat EMAIL_SIZE) \<rparr>"

text \<open>
  A valid row: both character arrays have their declared sizes and hold a
  null-terminated string.
\<close>

definition valid_Row :: "Row \<Rightarrow> bool" where
  "valid_Row r \<longleftrightarrow>
     length (username r) = COLUMN_USERNAME_SIZE + 1 \<and> length (email r) = COLUMN_EMAIL_SIZE + 1
     \<and> 0 \<in> set (username r) \<and> 0 \<in> set (email r)"

section \<open>Node accessors\<close>

text \<open>
  The accessors of the source return pointers into the node.  Here each returns the
  byte offset of that pointer from the node's base.  \<open>cell_num * LEAF_NODE_CELL_SIZE\<close>
  is a \<open>uint32_t\<close> product; adding it to the pointer does not wrap.
  \<open>internal_node_cell\<close> returns a \<open>uint32_t*\<close>, so the addition in
  \<open>internal_node_key\<close> advances by \<open>INTERNAL_NODE_CHILD_SIZE\<close> elements of four bytes.
\<close>

definition NODE_INTERNAL :: u8 where "NODE_INTERNAL = 0"
definition NODE_LEAF :: u8 where "NODE_LEAF = 1"

definition get_node_type :: "page \<Rightarrow> u8" where
  "get_node_type node = read_u8 node (unat NODE_TYPE_OFFSET)"

definition set_node_type :: "page \<Rightarrow> u8 \<Rightarrow> page" where
  "set_node_type node t = write_u8 node (unat NODE_TYPE_OFFSET) t"

definition is_node_root :: "page \<Rightarrow> bool" where
  "is_node_root node \<longleftrightarrow> read_u8 node (unat IS_ROOT_OFFSET) \<noteq> 0"

definition set_node_root :: "page \<Rightarrow> bool \<Rightarrow> page" where
  "set_node_root node is_root = write_u8 node (unat IS_ROOT_OFFSET) (if is_root then 1 else 0)"

definition leaf_node_num_cells :: nat where
  "leaf_node_num_cells = unat LEAF_NODE_NUM_CELLS_OFFSET"

definition leaf_node_cell :: "u32 \<Rightarrow> nat" where
  "leaf_node_cell cell_num = unat LEAF_NODE_HEADER_SIZE + unat (cell_num * LEAF_NODE_CELL_SIZE)"

definition leaf_node_key :: "u32 \<Rightarrow> nat" where
  "leaf_node_key cell_num = leaf_node_cell cell_num"

definition leaf_node_value :: "u32 \<Rightarrow> nat" where
  "leaf_node_value cell_num = leaf_node_cell cell_num + unat LEAF_NODE_KEY_SIZE"

definition initialize_leaf_node :: "page \<Rightarrow> page" where
  "initialize_leaf_node node =
     write_u32 (set_node_root (set_node_type node NODE_LEAF) False) leaf_node_num_cells 0"

definition internal_node_num_keys :: nat where
  "internal_node_num_keys = unat INTERNAL_NODE_NUM_KEYS_OFFSET"

definition internal_node_right_child :: nat where
  "internal_node_right_child = unat INTERNAL_NODE_RIGHT_CHILD_OFFSET"

definition internal_node_cell :: "u32 \<Rightarrow> nat" where
  "internal_node_cell cell_num =
     unat INTERNAL_NODE_HEADER_SIZE + unat (cell_num * INTERNAL_NODE_CELL_SIZE)"

definition internal_node_key :: "u32 \<Rightarrow> nat" where
  "internal_node_key key_num = internal_node_cell key_num + 4 * unat INTERNAL_NODE_CHILD_SIZE"

text \<open>
  Modelled from the spec: \<open>initialize_internal_node\<close> is called by \<open>create_new_root\<close>
  and its definition is cut off in the source.  The specification: it sets the type to
  internal, \<open>is_root\<close> to false and \<open>num_keys\<close> to 0.
\<close>

definition initialize_internal_node :: "page \<Rightarrow> page" where
  "initialize_internal_node node =
     write_u32 (set_node_root (set_node_type node NODE_INTERNAL) False) internal_node_num_keys 0"

section \<open>Pager\<close>

text \<open>
  An \<open>exit(EXIT_FAILURE)\<close> of the functions modelled here is a value of \<open>fault\<close>,
  named after the message printed before it; opening, seeking in and reading the file
  are taken to succeed.  \<open>Undefined_behaviour\<close> stands for the places where C gives
  the program no meaning: indexing the slot array outside its bounds, reading an
  indeterminate value, leaving a value-returning function without \<open>return\<close>.
\<close>

datatype fault =
    Page_number_out_of_bound
  | Corrupt_file
  | Child_num_out_of_range
  | Internal_search_unimplemented
  | Parent_update_unimplemented
  | Undefined_behaviour

text \<open>
  \<open>struct Pager_t\<close>.  The open file is represented by its contents.  \<open>pages\<close> is
  the slot array: \<open>None\<close> is the null pointer, \<open>Some p\<close> a buffer with contents \<open>p\<close>.
  \<open>malloc\<close> does not initialise what it returns; \<open>heap n\<close> is the indeterminate
  contents of the buffer \<open>malloc(PAGE_SIZE)\<close> returns when slot \<open>n\<close> is filled (a slot
  is filled at most once while the database is open).
\<close>

record Pager =
  file_descriptor :: "u8 list"
  file_length :: u32
  num_pages :: u32
  pages :: "nat \<Rightarrow> page option"
  heap :: "nat \<Rightarrow> page"

record Table =
  root_page_num :: u32
  pager :: Pager

text \<open>
  \<open>struct Cursor_t\<close>; the table it points to is passed along explicitly.
  \<open>leaf_node_find\<close> allocates a cursor and never assigns \<open>end_of_table\<close>, so the field
  can be indeterminate: \<open>None\<close>.
\<close>

record Cursor =
  page_num :: u32
  cell_num :: u32
  end_of_table :: "bool option"

datatype ExecuteResult = EXECUTE_SUCCESS | EXECUTE_DUPLICATE_KEY | EXECUTE_TABLE_FULL

datatype PrepareResult =
    PREPARE_SUCCESS
  | PREPARE_NEGATIVE_ID
  | PREPARE_SYNTAX_ERROR
  | PREPARE_STRING_TOO_LONG
  | PREPARE_UNRECOGNIZED_STATEMENT

datatype StatementType = STATEMENT_INSERT | STATEMENT_SELECT

record Statement =
  type :: StatementType
  row_to_insert :: Row

text \<open>Dereferencing the pointer in a slot, and writing through it.\<close>

definition page_of :: "Pager \<Rightarrow> u32 \<Rightarrow> page" where
  "page_of pgr n = the (pages pgr (unat n))"

definition set_page :: "Pager \<Rightarrow> u32 \<Rightarrow> page \<Rightarrow> Pager" where
  "set_page pgr n p = pgr\<lparr>pages := (pages pgr)(unat n \<mapsto> p)\<rparr>"

definition get_unused_page_num :: "Pager \<Rightarrow> u32" where
  "get_unused_page_num pgr = num_pages pgr"

text \<open>
  \<open>lseek\<close> to \<open>offset\<close> followed by \<open>read\<close> of up to \<open>n\<close> bytes into the start of
  the buffer: the bytes the file has from there on are copied, the rest of the buffer
  is left as it was.  The read itself is taken to succeed.
\<close>

definition read_file :: "u8 list \<Rightarrow> nat \<Rightarrow> page \<Rightarrow> nat \<Rightarrow> page" where
  "read_file file offset buf n = store_bytes buf 0 (take n (drop offset file))"

text \<open>
  \<open>get_page\<close> returns the pointer stored in slot \<open>page_num\<close>; here it returns the
  pager, and the caller reads the slot with \<open>page_of\<close>.  The slot array has
  \<open>TABLE_MAX_PAGES\<close> elements, so the index \<open>TABLE_MAX_PAGES\<close>, which the guard lets
  through, is outside the array.
\<close>

definition get_page :: "Pager \<Rightarrow> u32 \<Rightarrow> fault + Pager" where
  "get_page pgr pn =
     (if pn > TABLE_MAX_PAGES then Inl Page_number_out_of_bound
      else if \<not> unat pn < unat TABLE_MAX_PAGES then Inl Undefined_behaviour
      else
        (case pages pgr (unat pn) of
           Some p \<Rightarrow> Inr pgr
         | None \<Rightarrow>
             (let page = heap pgr (unat pn);
                  n0 = file_length pgr div PAGE_SIZE;
                  n1 = (if file_length pgr mod PAGE_SIZE \<noteq> 0 then n0 + 1 else n0);
                  page1 = (if pn \<le> n1
                           then read_file (file_descriptor pgr) (unat (pn * PAGE_SIZE)) page
                                  (unat PAGE_SIZE)
                           else page);
                  pgr1 = pgr\<lparr>pages := (pages pgr)(unat pn \<mapsto> page1)\<rparr>;
                  pgr2 = (if pn \<ge> num_pages pgr1 then pgr1\<lparr>num_pages := pn + 1\<rparr> else pgr1)
              in Inr pgr2)))"

text \<open>
  \<open>pager_open\<close>: the file is taken to open; its length is an \<open>off_t\<close>, stored into
  \<open>uint32_t\<close> fields.  The second argument gives the contents of the buffers \<open>malloc\<close>
  will return.
\<close>

definition pager_open :: "u8 list \<Rightarrow> (nat \<Rightarrow> page) \<Rightarrow> fault + Pager" where
  "pager_open file mallocs =
     (if length file mod unat PAGE_SIZE \<noteq> 0 then Inl Corrupt_file
      else Inr \<lparr> file_descriptor = file,
                 file_length = of_nat (length file),
                 num_pages = of_nat (length file div unat PAGE_SIZE),
                 pages = (\<lambda>i. None),
                 heap = mallocs \<rparr>)"

definition db_open :: "u8 list \<Rightarrow> (nat \<Rightarrow> page) \<Rightarrow> fault + Table" where
  "db_open file mallocs =
     (case pager_open file mallocs of
        Inl e \<Rightarrow> Inl e
      | Inr pgr \<Rightarrow>
          (if num_pages pgr = 0
           then (case get_page pgr 0 of
                   Inl e \<Rightarrow> Inl e
                 | Inr pgr1 \<Rightarrow>
                     Inr \<lparr> root_page_num = 0,
                           pager = set_page pgr1 0 (initialize_leaf_node (page_of pgr1 0)) \<rparr>)
           else Inr \<lparr> root_page_num = 0, pager = pgr \<rparr>))"

section \<open>Cursors and the tree\<close>

definition table_start :: "Table \<Rightarrow> fault + Cursor \<times> Table" where
  "table_start table =
     (case get_page (pager table) (root_page_num table) of
        Inl e \<Rightarrow> Inl e
      | Inr pgr1 \<Rightarrow>
          (let root_node = page_of pgr1 (root_page_num table);
               num_cells = read_u32 root_node leaf_node_num_cells
           in Inr (\<lparr> page_num = root_page_num table, cell_num = 0,
                      end_of_table = Some (num_cells = 0) \<rparr>,
                   table\<lparr>pager := pgr1\<rparr>)))"

text \<open>
  The binary search of \<open>leaf_node_find\<close>.  Its indices are \<open>uint32_t\<close>; with a cell
  count that does not come from this program the sum \<open>min_index + one_past_max_index\<close>
  can wrap, and nothing then bounds the number of iterations: not returning is \<open>None\<close>.
\<close>

partial_function (option) leaf_node_find_loop :: "page \<Rightarrow> u32 \<Rightarrow> u32 \<Rightarrow> u32 \<Rightarrow> u32 option" where
  "leaf_node_find_loop node key min_index one_past_max_index =
     (if one_past_max_index \<noteq> min_index
      then (let index = (min_index + one_past_max_index) div 2;
                key_at_index = read_u32 node (leaf_node_key index)
            in if key = key_at_index then Some index
               else if key < key_at_index
               then leaf_node_find_loop node key min_index index
               else leaf_node_find_loop node key (index + 1) one_past_max_index)
      else Some min_index)"

definition leaf_node_find :: "Table \<Rightarrow> u32 \<Rightarrow> u32 \<Rightarrow> (fault + Cursor \<times> Table) option" where
  "leaf_node_find table pn key =
     (case get_page (pager table) pn of
        Inl e \<Rightarrow> Some (Inl e)
      | Inr pgr1 \<Rightarrow>
          (let node = page_of pgr1 pn;
               num_cells = read_u32 node leaf_node_num_cells
           in case leaf_node_find_loop node key 0 num_cells of
                None \<Rightarrow> None
              | Some c \<Rightarrow>
                  Some (Inr (\<lparr> page_num = pn, cell_num = c, end_of_table = None \<rparr>,
                             table\<lparr>pager := pgr1\<rparr>))))"

definition table_find :: "Table \<Rightarrow> u32 \<Rightarrow> (fault + Cursor \<times> Table) option" where
  "table_find table key =
     (case get_page (pager table) (root_page_num table) of
        Inl e \<Rightarrow> Some (Inl e)
      | Inr pgr1 \<Rightarrow>
          (if get_node_type (page_of pgr1 (root_page_num table)) = NODE_LEAF
           then leaf_node_find (table\<lparr>pager := pgr1\<rparr>) (root_page_num table) key
           else Some (Inl Internal_search_unimplemented)))"

text \<open>\<open>cursor_value\<close> returns a pointer into the cursor's page: its offset there.\<close>

definition cursor_value :: "Cursor \<Rightarrow> Table \<Rightarrow> fault + nat \<times> Table" where
  "cursor_value cursor table =
     (case get_page (pager table) (page_num cursor) of
        Inl e \<Rightarrow> Inl e
      | Inr pgr1 \<Rightarrow> Inr (leaf_node_value (cell_num cursor), table\<lparr>pager := pgr1\<rparr>))"

definition cursor_advance :: "Cursor \<Rightarrow> Table \<Rightarrow> fault + Cursor \<times> Table" where
  "cursor_advance cursor table =
     (case get_page (pager table) (page_num cursor) of
        Inl e \<Rightarrow> Inl e
      | Inr pgr1 \<Rightarrow>
          (let node = page_of pgr1 (page_num cursor);
               cursor1 = cursor\<lparr>cell_num := cell_num cursor + 1\<rparr>;
               cursor2 = (if cell_num cursor1 \<ge> read_u32 node leaf_node_num_cells
                          then cursor1\<lparr>end_of_table := Some True\<rparr> else cursor1)
           in Inr (cursor2, table\<lparr>pager := pgr1\<rparr>)))"

definition internal_node_child :: "page \<Rightarrow> u32 \<Rightarrow> fault + nat" where
  "internal_node_child node child_num =
     (let num_keys = read_u32 node internal_node_num_keys
      in if child_num > num_keys then Inl Child_num_out_of_range
         else if child_num = num_keys then Inr internal_node_right_child
         else Inr (internal_node_cell child_num))"

text \<open>The \<open>switch\<close> has no default: another type byte leaves the function without a value.\<close>

definition get_node_max_key :: "page \<Rightarrow> fault + u32" where
  "get_node_max_key node =
     (if get_node_type node = NODE_INTERNAL
      then Inr (read_u32 node (internal_node_key (read_u32 node internal_node_num_keys - 1)))
      else if get_node_type node = NODE_LEAF
      then Inr (read_u32 node (leaf_node_key (read_u32 node leaf_node_num_cells - 1)))
      else Inl Undefined_behaviour)"

definition create_new_root :: "Table \<Rightarrow> u32 \<Rightarrow> fault + Table" where
  "create_new_root table right_child_page_num =
     (case get_page (pager table) (root_page_num table) of
        Inl e \<Rightarrow> Inl e
      | Inr pgr1 \<Rightarrow>
     (case get_page pgr1 right_child_page_num of
        Inl e \<Rightarrow> Inl e
      | Inr pgr2 \<Rightarrow>
     (let root = root_page_num table;
          left_child_page_num = get_unused_page_num pgr2
      in case get_page pgr2 left_child_page_num of
        Inl e \<Rightarrow> Inl e
      | Inr pgr3 \<Rightarrow>
     (let pgr4 = set_page pgr3 left_child_page_num
                   (memcpy (page_of pgr3 left_child_page_num) 0 (page_of pgr3 root) 0
                      (unat PAGE_SIZE));
          pgr5 = set_page pgr4 left_child_page_num
                   (set_node_root (page_of pgr4 left_child_page_num) False);
          pgr6 = set_page pgr5 root (initialize_internal_node (page_of pgr5 root));
          pgr7 = set_page pgr6 root (set_node_root (page_of pgr6 root) True);
          pgr8 = set_page pgr7 root (write_u32 (page_of pgr7 root) internal_node_num_keys 1)
      in case internal_node_child (page_of pgr8 root) 0 of
        Inl e \<Rightarrow> Inl e
      | Inr child \<Rightarrow>
     (let pgr9 = set_page pgr8 root (write_u32 (page_of pgr8 root) child left_child_page_num)
      in case get_node_max_key (page_of pgr9 left_child_page_num) of
        Inl e \<Rightarrow> Inl e
      | Inr left_child_max_key \<Rightarrow>
     (let pgr10 = set_page pgr9 root
                    (write_u32 (page_of pgr9 root) (internal_node_key 0) left_child_max_key);
          pgr11 = set_page pgr10 root
                    (write_u32 (page_of pgr10 root) internal_node_right_child
                       right_child_page_num)
      in Inr (table\<lparr>pager := pgr11\<rparr>)))))))"

text \<open>
  \<open>leaf_node_split_and_insert\<close>.  The closing brace of the \<open>for\<close> loop stands after the
  \<open>if\<close> that ends in \<open>return\<close> or \<open>exit\<close>, so the body runs once, for
  \<open>i = LEAF_NODE_MAX_CELLS\<close> (the loop condition \<open>i \<ge> 0\<close> holds of every \<open>uint32_t\<close>):
  one cell is placed, both cell counts are set, and the function returns through
  \<open>create_new_root\<close> or exits.  The parameter \<open>key\<close> is not used.
  Modelled from the spec: the first argument of the call of \<open>create_new_root\<close> is
  written \<open>cursor->value\<close>, a field \<open>Cursor\<close> does not have; the specification names the
  table as the argument.
\<close>

definition leaf_node_split_and_insert :: "Cursor \<Rightarrow> u32 \<Rightarrow> Row \<Rightarrow> Table \<Rightarrow> fault + Table" where
  "leaf_node_split_and_insert cursor key val table =
     (case get_page (pager table) (page_num cursor) of
        Inl e \<Rightarrow> Inl e
      | Inr pgr1 \<Rightarrow>
     (let old_node = page_num cursor;
          new_page_num = get_unused_page_num pgr1
      in case get_page pgr1 new_page_num of
        Inl e \<Rightarrow> Inl e
      | Inr pgr2 \<Rightarrow>
     (let new_node = new_page_num;
          pgr3 = set_page pgr2 new_node (initialize_leaf_node (page_of pgr2 new_node));
          i = LEAF_NODE_MAX_CELLS;
          destination_node = (if i \<ge> LEAF_NODE_SPLIT_COUNT then new_node else old_node);
          index_within_node = i mod LEAF_NODE_LEFT_SPLIT_COUNT;
          destination = leaf_node_cell index_within_node;
          pgr4 = set_page pgr3 destination_node
                   (if i = cell_num cursor
                    then serialize_row val (page_of pgr3 destination_node) destination
                    else if i > cell_num cursor
                    then memcpy (page_of pgr3 destination_node) destination
                           (page_of pgr3 old_node) (leaf_node_cell (i - 1))
                           (unat LEAF_NODE_CELL_SIZE)
                    else memcpy (page_of pgr3 destination_node) destination
                           (page_of pgr3 old_node) (leaf_node_cell i)
                           (unat LEAF_NODE_CELL_SIZE));
          pgr5 = set_page pgr4 old_node
                   (write_u32 (page_of pgr4 old_node) leaf_node_num_cells
                      LEAF_NODE_LEFT_SPLIT_COUNT);
          pgr6 = set_page pgr5 new_node
                   (write_u32 (page_of pgr5 new_node) leaf_node_num_cells
                      LEAF_NODE_RIGHT_SPLIT_COUNT)
      in if is_node_root (page_of pgr6 old_node)
         then create_new_root (table\<lparr>pager := pgr6\<rparr>) new_page_num
         else Inl Parent_update_unimplemented)))"

text \<open>The shifting loop of \<open>leaf_node_insert\<close>, \<open>i\<close> running down to \<open>cell_num + 1\<close>.\<close>

function leaf_node_insert_shift :: "page \<Rightarrow> u32 \<Rightarrow> u32 \<Rightarrow> page" where
  "leaf_node_insert_shift node i cn =
     (if i > cn
      then leaf_node_insert_shift
             (memcpy node (leaf_node_cell i) node (leaf_node_cell (i - 1))
                (unat LEAF_NODE_CELL_SIZE))
             (i - 1) cn
      else node)"
  by pat_completeness auto
termination
proof (relation "measure (\<lambda>(node, i, cn). unat i)")
  show "wf (measure (\<lambda>(node, i, cn). unat i))" by simp
next
  fix node :: page and i cn :: u32
  assume "cn < i"
  then have "i \<noteq> 0" by auto
  then have "unat (i - 1) < unat i" by (rule measure_unat)
  then show "((memcpy node (leaf_node_cell i) node (leaf_node_cell (i - 1))
                 (unat LEAF_NODE_CELL_SIZE), i - 1, cn), (node, i, cn))
             \<in> measure (\<lambda>(node, i, cn). unat i)"
    by simp
qed

declare leaf_node_insert_shift.simps [simp del]

definition leaf_node_insert :: "Cursor \<Rightarrow> u32 \<Rightarrow> Row \<Rightarrow> Table \<Rightarrow> fault + Table" where
  "leaf_node_insert cursor key val table =
     (case get_page (pager table) (page_num cursor) of
        Inl e \<Rightarrow> Inl e
      | Inr pgr1 \<Rightarrow>
          (let node = page_of pgr1 (page_num cursor);
               num_cells = read_u32 node leaf_node_num_cells
           in if num_cells \<ge> LEAF_NODE_MAX_CELLS
              then leaf_node_split_and_insert cursor key val (table\<lparr>pager := pgr1\<rparr>)
              else
                (let node1 = (if cell_num cursor < num_cells
                              then leaf_node_insert_shift node num_cells (cell_num cursor)
                              else node);
                     node2 = write_u32 node1 leaf_node_num_cells
                               (read_u32 node1 leaf_node_num_cells + 1);
                     node3 = write_u32 node2 (leaf_node_key (cell_num cursor)) key;
                     node4 = serialize_row val node3 (leaf_node_value (cell_num cursor))
                 in Inr (table\<lparr>pager := set_page pgr1 (page_num cursor) node4\<rparr>))))"

section \<open>Statements\<close>

text \<open>
  \<open>execute_insert\<close> keeps the id in a \<open>uint16_t\<close>; the search and the comparison with
  the key found use that value converted back to 32 bits, the insertion uses the id of
  the row.  The pointer \<open>node\<close> is the one in the root's slot.
\<close>

definition execute_insert :: "Statement \<Rightarrow> Table \<Rightarrow> (fault + ExecuteResult \<times> Table) option" where
  "execute_insert statement table =
     (case get_page (pager table) (root_page_num table) of
        Inl e \<Rightarrow> Some (Inl e)
      | Inr pgr1 \<Rightarrow>
          (let node = root_page_num table;
               num_cells = read_u32 (page_of pgr1 node) leaf_node_num_cells;
               row = row_to_insert statement;
               key_to_insert = (ucast (row_id row) :: u16)
           in case table_find (table\<lparr>pager := pgr1\<rparr>) (ucast key_to_insert) of
                None \<Rightarrow> None
              | Some (Inl e) \<Rightarrow> Some (Inl e)
              | Some (Inr (cursor, table1)) \<Rightarrow>
                  (if cell_num cursor < num_cells \<and>
                      read_u32 (page_of (pager table1) node) (leaf_node_key (cell_num cursor))
                        = ucast key_to_insert
                   then Some (Inr (EXECUTE_DUPLICATE_KEY, table1))
                   else (case leaf_node_insert cursor (row_id row) row table1 of
                           Inl e \<Rightarrow> Some (Inl e)
                         | Inr table2 \<Rightarrow> Some (Inr (EXECUTE_SUCCESS, table2))))))"

text \<open>
  \<open>execute_select\<close> prints each row it reads; the rows printed are collected in a list.
  \<open>deserialize_row\<close> assigns every field of the local \<open>row\<close>, whose earlier contents
  play no part: it is started from \<open>row0\<close>.
\<close>

partial_function (option) execute_select_loop ::
  "Row \<Rightarrow> Cursor \<Rightarrow> Row list \<Rightarrow> Table \<Rightarrow> (fault + Row list \<times> Table) option" where
  "execute_select_loop row cursor printed table =
     (if end_of_table cursor = None then Some (Inl Undefined_behaviour)
      else if end_of_table cursor = Some True then Some (Inr (printed, table))
      else
          (case cursor_value cursor table of
             Inl e \<Rightarrow> Some (Inl e)
           | Inr (source, table1) \<Rightarrow>
               (let row1 = deserialize_row (page_of (pager table1) (page_num cursor)) source row
                in case cursor_advance cursor table1 of
                     Inl e \<Rightarrow> Some (Inl e)
                   | Inr (cursor1, table2) \<Rightarrow>
                       execute_select_loop row1 cursor1 (printed @ [row1]) table2)))"

definition execute_select :: "Row \<Rightarrow> Table \<Rightarrow> (fault + Row list \<times> Table) option" where
  "execute_select row0 table =
     (case table_start table of
        Inl e \<Rightarrow> Some (Inl e)
      | Inr (cursor, table1) \<Rightarrow> execute_select_loop row0 cursor [] table1)"

section \<open>Preparing an insert statement\<close>

text \<open>
  The C library functions \<open>prepare_insert\<close> calls.
  A C string is the list of its characters before the terminating zero.
  \<open>strtok\<close> with the delimiter set \<open>" "\<close> skips leading spaces and returns the
  characters up to the next space, or a null pointer when none are left; the second
  component is where the next call resumes.
\<close>

definition strtok :: "string \<Rightarrow> string option \<times> string" where
  "strtok s =
     (let s1 = dropWhile (\<lambda>c. c = CHR '' '') s
      in if s1 = [] then (None, [])
         else (Some (takeWhile (\<lambda>c. c \<noteq> CHR '' '') s1),
               drop 1 (dropWhile (\<lambda>c. c \<noteq> CHR '' '') s1)))"

definition isspace :: "char \<Rightarrow> bool" where
  "isspace c \<longleftrightarrow> (of_char c :: nat) = 32 \<or> (9 \<le> (of_char c :: nat) \<and> (of_char c :: nat) \<le> 13)"

definition isdigit :: "char \<Rightarrow> bool" where
  "isdigit c \<longleftrightarrow> 48 \<le> (of_char c :: nat) \<and> (of_char c :: nat) \<le> 57"

fun atoi_digits :: "string \<Rightarrow> int \<Rightarrow> int" where
  "atoi_digits [] acc = acc"
| "atoi_digits (c # cs) acc =
     (if isdigit c then atoi_digits cs (10 * acc + (of_char c - 48)) else acc)"

text \<open>
  \<open>strtol\<close> in base 10: leading white space, an optional sign, then the longest run of
  decimal digits; 0 when there is none.  A value outside \<open>long\<close>, 64 bits here, is
  replaced by the nearest bound.
\<close>

definition strtol :: "string \<Rightarrow> int" where
  "strtol s =
     (case dropWhile isspace s of
        [] \<Rightarrow> 0
      | c # cs \<Rightarrow>
          (let v = (if c = CHR ''-'' then - atoi_digits cs 0
                    else if c = CHR ''+'' then atoi_digits cs 0
                    else atoi_digits (c # cs) 0)
           in max (- (2 ^ 63)) (min (2 ^ 63 - 1) v)))"

text \<open>
  \<open>atoi\<close> returns an \<open>int\<close>, 32 bits read as two's complement.  The C standard gives
  it no meaning when the number does not fit; the C library the program runs with
  computes \<open>(int) strtol(nptr, NULL, 10)\<close>, and the conversion to \<open>int\<close> keeps the low
  32 bits.
\<close>

definition atoi :: "string \<Rightarrow> 32 word" where
  "atoi s = word_of_int (strtol s)"

text \<open>\<open>strcpy\<close> into a character array: the string, its terminating zero, and the rest
  of the array as it was.\<close>

definition strcpy :: "u8 list \<Rightarrow> string \<Rightarrow> u8 list" where
  "strcpy dst src = map of_char src @ [0] @ drop (length src + 1) dst"

text \<open>
  \<open>prepare_insert\<close> reads the line in the input buffer and fills the statement it is
  given; the id, an \<open>int\<close>, is converted to \<open>uint32_t\<close> by the assignment, which
  keeps its bits.
\<close>

definition prepare_insert :: "string \<Rightarrow> Statement \<Rightarrow> PrepareResult \<times> Statement" where
  "prepare_insert buffer statement =
     (let statement1 = statement\<lparr>type := STATEMENT_INSERT\<rparr>;
          (keyword, rest1) = strtok buffer;
          (id_string, rest2) = strtok rest1;
          (username_tok, rest3) = strtok rest2;
          (email_tok, rest4) = strtok rest3
      in case (id_string, username_tok, email_tok) of
           (Some ids, Some u, Some e) \<Rightarrow>
             (let i = atoi ids
              in if sint i < 0 then (PREPARE_NEGATIVE_ID, statement1)
                 else if length u > COLUMN_USERNAME_SIZE then (PREPARE_STRING_TOO_LONG, statement1)
                 else if length e > COLUMN_EMAIL_SIZE then (PREPARE_STRING_TOO_LONG, statement1)
                 else (PREPARE_SUCCESS,
                       statement1\<lparr>row_to_insert :=
                         \<lparr> row_id = i,
                           username = strcpy (username (row_to_insert statement1)) u,
                           email = strcpy (email (row_to_insert statement1)) e \<rparr>\<rparr>))
         | _ \<Rightarrow> (PREPARE_SYNTAX_ERROR, statement1))"

text \<open>
  The words of a line, separated by spaces, and what it means for a token to have no
  number at its start: after optional white space and an optional sign no digit
  follows.
\<close>

fun split_words :: "string \<Rightarrow> string \<Rightarrow> string list" where
  "split_words [] cur = (if cur = [] then [] else [cur])"
| "split_words (c # cs) cur =
     (if c = CHR '' '' then (if cur = [] then split_words cs [] else cur # split_words cs [])
      else split_words cs (cur @ [c]))"

definition words_of :: "string \<Rightarrow> string list" where
  "words_of s = split_words s []"

definition numeric_prefix :: "string \<Rightarrow> bool" where
  "numeric_prefix tok =
     (case dropWhile isspace tok of
        [] \<Rightarrow> False
      | c # cs \<Rightarrow>
          if c = CHR ''-'' \<or> c = CHR ''+'' then (case cs of [] \<Rightarrow> False | d # ds \<Rightarrow> isdigit d)
          else isdigit c)"

section \<open>Running several statements\<close>

text \<open>
  The loop of \<open>main\<close> for a sequence of prepared insert statements: each is executed
  on the table the one before it left, the result codes are collected, and a fault
  ends the process.
\<close>

fun execute_inserts :: "Statement list \<Rightarrow> Table \<Rightarrow> (fault + ExecuteResult list \<times> Table) option" where
  "execute_inserts [] table = Some (Inr ([], table))"
| "execute_inserts (s # ss) table =
     (case execute_insert s table of
        None \<Rightarrow> None
      | Some (Inl e) \<Rightarrow> Some (Inl e)
      | Some (Inr (r, table1)) \<Rightarrow>
          (case execute_inserts ss table1 of
             None \<Rightarrow> None
           | Some (Inl e) \<Rightarrow> Some (Inl e)
           | Some (Inr (rs, table2)) \<Rightarrow> Some (Inr (r # rs, table2))))"

text \<open>
  An insert statement with the given id and character arrays, and the statements with
  the ids \<open>a, a + 1, \<dots>, b - 1\<close> in this order.
\<close>

definition ins :: "u32 \<Rightarrow> u8 list \<Rightarrow> u8 list \<Rightarrow> Statement" where
  "ins k u e = \<lparr> type = STATEMENT_INSERT, row_to_insert = \<lparr> row_id = k, username = u, email = e \<rparr> \<rparr>"

definition ascending :: "(nat \<Rightarrow> u8 list) \<Rightarrow> (nat \<Rightarrow> u8 list) \<Rightarrow> nat \<Rightarrow> nat \<Rightarrow> Statement list" where
  "ascending u e a b = map (\<lambda>k. ins (of_nat k) (u k) (e k)) [a ..< b]"

section \<open>Notions used in the proofs\<close>

text \<open>
  The table of a database opened on the file \<open>F\<close>, of at most one page, once its root
  page is in the cache with the contents \<open>node\<close>.
\<close>

definition leaf_table :: "u8 list \<Rightarrow> (nat \<Rightarrow> page) \<Rightarrow> page \<Rightarrow> Table" where
  "leaf_table F h node =
     \<lparr> root_page_num = 0,
       pager = \<lparr> file_descriptor = F, file_length = of_nat (length F), num_pages = 1,
                 pages = (\<lambda>i. None)(0 \<mapsto> node), heap = h \<rparr> \<rparr>"

text \<open>A leaf that is not marked as root and holds the keys \<open>1, \<dots>, n\<close> in its first \<open>n\<close> cells.\<close>

definition asc_leaf :: "page \<Rightarrow> u32 \<Rightarrow> bool" where
  "asc_leaf node n \<longleftrightarrow>
     get_node_type node = NODE_LEAF \<and> \<not> is_node_root node \<and>
     read_u32 node leaf_node_num_cells = n \<and>
     (\<forall>i. i < n \<longrightarrow> read_u32 node (leaf_node_key i) = i + 1)"

text \<open>
  The root page after one row has been inserted into the fresh leaf made from \<open>p\<close>, and
  after a second row has been inserted in front of the first.
\<close>

definition one_cell :: "page \<Rightarrow> u32 \<Rightarrow> u8 list \<Rightarrow> u8 list \<Rightarrow> page" where
  "one_cell p k u e =
     serialize_row \<lparr> row_id = k, username = u, email = e \<rparr>
       (write_u32 (write_u32 (initialize_leaf_node p) leaf_node_num_cells 1) (leaf_node_key 0) k)
       (leaf_node_value 0)"

definition two_cells :: "page \<Rightarrow> u32 \<Rightarrow> u8 list \<Rightarrow> u8 list \<Rightarrow> u32 \<Rightarrow> u8 list \<Rightarrow> u8 list \<Rightarrow> page" where
  "two_cells p k1 u1 e1 k2 u2 e2 =
     serialize_row \<lparr> row_id = k2, username = u2, email = e2 \<rparr>
       (write_u32
          (write_u32
             (memcpy (one_cell p k1 u1 e1) (leaf_node_cell 1) (one_cell p k1 u1 e1)
                (leaf_node_cell 0) (unat LEAF_NODE_CELL_SIZE))
             leaf_node_num_cells 2)
          (leaf_node_key 0) k2)
       (leaf_node_value 0)"




section \<open>Facts about raw memory\<close>

lemma store_bytes_apply:
  "store_bytes mem a bs x = (if a \<le> x \<and> x < a + length bs then bs ! (x - a) else mem x)"
  by (simp add: store_bytes_def)

lemma store_bytes_Nil [simp]: "store_bytes mem a [] = mem"
  by (rule ext) (auto simp add: store_bytes_def)

lemma length_load_bytes [simp]: "length (load_bytes mem a n) = n"
  by (simp add: load_bytes_def)

lemma nth_load_bytes [simp]: "i < n \<Longrightarrow> load_bytes mem a n ! i = mem (a + i)"
  by (simp add: load_bytes_def)

lemma load_store_same: "load_bytes (store_bytes mem a bs) a (length bs) = bs"
  by (rule nth_equalityI) (simp_all add: store_bytes_apply)

lemma load_store_other:
  "b + n \<le> a \<or> a + length bs \<le> b \<Longrightarrow> load_bytes (store_bytes mem a bs) b n = load_bytes mem b n"
  by (rule nth_equalityI) (auto simp add: store_bytes_apply)

lemma length_u32_bytes [simp]: "length (u32_bytes w) = 4"
  by (simp add: u32_bytes_def)

lemma split4: "(n::nat) < 2 ^ 32 \<Longrightarrow>
   n mod 256 + 256 * (n div 256 mod 256) + 65536 * (n div 65536 mod 256)
          + 16777216 * (n div 16777216 mod 256) = n"
proof -
  assume lt: "n < 2 ^ 32"
  have a: "n div 16777216 mod 256 = n div 16777216" using lt by simp
  have d1: "n div 65536 = (n div 256) div 256" by (simp add: div_mult2_eq [symmetric])
  have d2: "n div 16777216 = ((n div 256) div 256) div 256" by (simp add: div_mult2_eq [symmetric])
  show ?thesis unfolding a unfolding d1 d2
    using div_mult_mod_eq [of n 256] div_mult_mod_eq [of "n div 256" 256] div_mult_mod_eq [of "n div 256 div 256" 256]
    by linarith
qed

lemma bytes_u32_u32_bytes: "bytes_u32 (u32_bytes w) = w"
proof -
  have lt: "unat w < 2 ^ 32" using unsigned_less [of w] by simp
  have b: "\<And>n::nat. unat (of_nat (n mod 256) :: u8) = n mod 256"
    by (simp add: unat_of_nat)
  show ?thesis
    by (simp add: bytes_u32_def u32_bytes_def b split4 [OF lt])
qed

lemma read_write_u32_same [simp]: "read_u32 (write_u32 mem a v) a = v"
  using load_store_same [of mem a "u32_bytes v"]
  by (simp add: read_u32_def write_u32_def bytes_u32_u32_bytes)

lemma read_u32_store_other:
  "b + 4 \<le> a \<or> a + length bs \<le> b \<Longrightarrow> read_u32 (store_bytes mem a bs) b = read_u32 mem b"
  by (simp add: read_u32_def load_store_other)

lemma read_u32_write_u32_other:
  "b + 4 \<le> a \<or> a + 4 \<le> b \<Longrightarrow> read_u32 (write_u32 mem a v) b = read_u32 mem b"
  by (simp add: write_u32_def read_u32_store_other)

lemma write_u32_apply_below:
  "x < a \<Longrightarrow> write_u32 mem a v x = mem x"
  by (simp add: write_u32_def store_bytes_apply)

lemma read_u32_memcpy_inside:
  "d \<le> b \<Longrightarrow> b + 4 \<le> d + n \<Longrightarrow> read_u32 (memcpy dm d sm s n) b = read_u32 sm (s + (b - d))"
proof -
  assume a: "d \<le> b" "b + 4 \<le> d + n"
  have "load_bytes (store_bytes dm d (load_bytes sm s n)) b 4 = load_bytes sm (s + (b - d)) 4"
    using a by (intro nth_equalityI) (simp_all add: store_bytes_apply ac_simps)
  then show ?thesis by (simp add: read_u32_def memcpy_def)
qed

lemma read_u32_memcpy_other:
  "b + 4 \<le> d \<or> d + n \<le> b \<Longrightarrow> read_u32 (memcpy dm d sm s n) b = read_u32 dm b"
  by (simp add: memcpy_def read_u32_store_other)

lemma memcpy_apply_below: "x < d \<Longrightarrow> memcpy dm d sm s n x = dm x"
  by (simp add: memcpy_def store_bytes_apply)

section \<open>Layout values\<close>

lemma row_layout_values:
  "unat ID_SIZE = 4" "unat USERNAME_SIZE = 33" "unat EMAIL_SIZE = 256"
  "unat ID_OFFSET = 0" "unat USERNAME_OFFSET = 4" "unat EMAIL_OFFSET = 37"
  "unat ROW_SIZE = 293"
  by (simp_all add: ID_SIZE_def USERNAME_SIZE_def EMAIL_SIZE_def ID_OFFSET_def
      USERNAME_OFFSET_def EMAIL_OFFSET_def ROW_SIZE_def COLUMN_USERNAME_SIZE_def
      COLUMN_EMAIL_SIZE_def)

lemma layout_values:
  "unat PAGE_SIZE = 4096" "leaf_node_num_cells = 4" 
  "unat LEAF_NODE_CELL_SIZE = 297" "LEAF_NODE_MAX_CELLS = 13"
  "LEAF_NODE_LEFT_SPLIT_COUNT = 7" "LEAF_NODE_RIGHT_SPLIT_COUNT = 7" "LEAF_NODE_SPLIT_COUNT = 7"
  "unat LEAF_NODE_HEADER_SIZE = 8" "unat LEAF_NODE_KEY_SIZE = 4"
  "unat NODE_TYPE_OFFSET = 0" "unat IS_ROOT_OFFSET = 1"
  by (simp_all add: PAGE_SIZE_def leaf_node_num_cells_def LEAF_NODE_NUM_CELLS_OFFSET_def
     COMMON_NODE_HEADER_SIZE_def NODE_TYPE_SIZE_def IS_ROOT_SIZE_def PARENT_POINTER_OFFSET_def
     IS_ROOT_OFFSET_def LEAF_NODE_CELL_SIZE_def LEAF_NODE_KEY_SIZE_def LEAF_NODE_VALUE_SIZE_def
     ROW_SIZE_def ID_SIZE_def USERNAME_SIZE_def EMAIL_SIZE_def COLUMN_USERNAME_SIZE_def
     COLUMN_EMAIL_SIZE_def LEAF_NODE_MAX_CELLS_def LEAF_NODE_SPACE_FOR_CELLS_def
     LEAF_NODE_HEADER_SIZE_def LEAF_NODE_NUM_CELLS_SIZE_def LEAF_NODE_LEFT_SPLIT_COUNT_def
     LEAF_NODE_RIGHT_SPLIT_COUNT_def LEAF_NODE_SPLIT_COUNT_def NODE_TYPE_OFFSET_def)

lemma leaf_node_offsets:
  "leaf_node_key 0 = 8" "leaf_node_value 0 = 12" "leaf_node_cell 0 = 8"
  "leaf_node_key 1 = 305" "leaf_node_value 1 = 309" "leaf_node_cell 1 = 305"
  by (simp_all add: leaf_node_key_def leaf_node_value_def leaf_node_cell_def layout_values
      LEAF_NODE_HEADER_SIZE_def COMMON_NODE_HEADER_SIZE_def NODE_TYPE_SIZE_def IS_ROOT_SIZE_def
      PARENT_POINTER_OFFSET_def IS_ROOT_OFFSET_def LEAF_NODE_NUM_CELLS_SIZE_def
      LEAF_NODE_CELL_SIZE_def LEAF_NODE_KEY_SIZE_def LEAF_NODE_VALUE_SIZE_def
      ROW_SIZE_def ID_SIZE_def USERNAME_SIZE_def EMAIL_SIZE_def COLUMN_USERNAME_SIZE_def
      COLUMN_EMAIL_SIZE_def)

lemma leaf_node_cell_small:
  "unat i \<le> 13 \<Longrightarrow> leaf_node_cell i = 8 + 297 * unat i"
proof -
  assume a: "unat i \<le> 13"
  have "unat (i * LEAF_NODE_CELL_SIZE) = unat i * unat LEAF_NODE_CELL_SIZE"
    using a by (simp add: unat_mult_lem [THEN iffD1] layout_values)
  then show ?thesis by (simp add: leaf_node_cell_def layout_values)
qed


section \<open>Facts about the row codec\<close>

lemma read_u32_serialize_row_below:
  "b + 4 \<le> d \<Longrightarrow> read_u32 (serialize_row r mem d) b = read_u32 mem b"
  by (simp add: serialize_row_def Let_def read_u32_store_other)

lemma read_u32_serialize_row_above:
  "d + 293 \<le> b \<Longrightarrow> read_u32 (serialize_row r mem d) b = read_u32 mem b"
  by (simp add: serialize_row_def Let_def read_u32_store_other row_layout_values)

lemma serialize_row_apply_below:
  "x < d \<Longrightarrow> serialize_row r mem d x = mem x"
  by (simp add: serialize_row_def Let_def store_bytes_apply)

lemma read_u32_serialize_row_id:
  "read_u32 (serialize_row r mem d) d = row_id r"
proof -
  have "load_bytes (store_bytes mem d (u32_bytes (row_id r))) d 4 = u32_bytes (row_id r)"
    using load_store_same [of mem d "u32_bytes (row_id r)"] by simp
  then show ?thesis
    by (simp add: serialize_row_def Let_def row_layout_values load_store_other
        read_u32_def bytes_u32_u32_bytes)
qed

lemma row_id_deserialize_row: "row_id (deserialize_row mem s d) = read_u32 mem s"
  by (simp add: deserialize_row_def read_u32_def row_layout_values)

lemma load_bytes_serialize_row_username:
  "length (username r) = 33 \<Longrightarrow> load_bytes (serialize_row r mem d) (d + 4) 33 = username r"
  using load_store_same [of "store_bytes mem d (u32_bytes (row_id r))" "d + 4" "username r"]
  by (simp add: serialize_row_def Let_def row_layout_values load_store_other)

lemma load_bytes_serialize_row_email:
  "length (email r) = 256 \<Longrightarrow> load_bytes (serialize_row r mem d) (d + 37) 256 = email r"
  using load_store_same [of _ "d + 37" "email r"]
  by (simp add: serialize_row_def Let_def row_layout_values)

section \<open>Facts about nodes and the pager\<close>

lemma not_root: "\<not> is_node_root (initialize_leaf_node p)"
  by (simp add: is_node_root_def initialize_leaf_node_def set_node_root_def set_node_type_def
      write_u32_def write_u8_def read_u8_def store_bytes_apply layout_values)

lemma is_node_root_write_u32:
  "2 \<le> a \<Longrightarrow> is_node_root (write_u32 node a v) = is_node_root node"
  by (simp add: is_node_root_def write_u32_def read_u8_def store_bytes_apply layout_values)

lemma get_page_hit:
  "pages pgr (unat pn) = Some p \<Longrightarrow> pn < TABLE_MAX_PAGES \<Longrightarrow> get_page pgr pn = Inr pgr"
  by (simp add: get_page_def word_less_nat_alt)

lemma get_page_beyond:
  assumes "pages pgr (unat pn) = None" "pn < TABLE_MAX_PAGES"
    "length (file_descriptor pgr) \<le> unat pn * unat PAGE_SIZE"
  shows "get_page pgr pn =
           Inr (pgr\<lparr>pages := (pages pgr)(unat pn \<mapsto> heap pgr (unat pn)),
                     num_pages := (if pn \<ge> num_pages pgr then pn + 1 else num_pages pgr)\<rparr>)"
proof -
  have lt: "unat pn < 100" using assms(2) by (simp add: word_less_nat_alt TABLE_MAX_PAGES_def)
  then have "unat (pn * PAGE_SIZE) = unat pn * unat PAGE_SIZE"
    by (simp add: unat_mult_lem [THEN iffD1] PAGE_SIZE_def)
  then have "read_file (file_descriptor pgr) (unat (pn * PAGE_SIZE)) (heap pgr (unat pn)) (unat PAGE_SIZE)
               = heap pgr (unat pn)"
    using assms(3) by (simp add: read_file_def)
  then show ?thesis
    using assms(1,2) lt by (simp add: get_page_def Let_def TABLE_MAX_PAGES_def)
qed


lemma get_page_miss_beyond_file:
  assumes "pn < TABLE_MAX_PAGES" "pages pgr (unat pn) = None"
    "length (file_descriptor pgr) \<le> unat pn * unat PAGE_SIZE"
  shows "\<exists>pgr'. get_page pgr pn = Inr pgr' \<and> pages pgr' (unat pn) = Some (heap pgr (unat pn))"
  by (simp add: get_page_beyond [OF assms(2) assms(1) assms(3)])

section \<open>A table whose root is a cached leaf\<close>

lemma db_open_leaf_table: "db_open [] h = Inr (leaf_table [] h (initialize_leaf_node (h 0)))"
  by (simp add: db_open_def pager_open_def get_page_def TABLE_MAX_PAGES_def Let_def PAGE_SIZE_def
      read_file_def set_page_def page_of_def leaf_table_def)

lemma get_page_root_leaf_table [simp]:
  "get_page (pager (leaf_table F h node)) 0 = Inr (pager (leaf_table F h node))"
  by (rule get_page_hit [where p = node]) (simp_all add: leaf_table_def TABLE_MAX_PAGES_def)

lemma page_of_leaf_table [simp]: "page_of (pager (leaf_table F h node)) 0 = node"
  by (simp add: page_of_def leaf_table_def)

lemma leaf_table_simps [simp]:
  "root_page_num (leaf_table F h node) = 0"
  "(leaf_table F h node)\<lparr>pager := pager (leaf_table F h node)\<rparr> = leaf_table F h node"
  "set_page (pager (leaf_table F h node)) 0 node' = pager (leaf_table F h node')"
  "(leaf_table F h node)\<lparr>pager := pager (leaf_table F h node')\<rparr> = leaf_table F h node'"
  by (simp_all add: leaf_table_def set_page_def)

lemma table_find_leaf_table:
  "get_node_type node = NODE_LEAF \<Longrightarrow>
   table_find (leaf_table F h node) key =
     (case leaf_node_find_loop node key 0 (read_u32 node leaf_node_num_cells) of
        None \<Rightarrow> None
      | Some c \<Rightarrow> Some (Inr (\<lparr> page_num = 0, cell_num = c, end_of_table = None \<rparr>,
                              leaf_table F h node)))"
  by (simp add: table_find_def leaf_node_find_def Let_def cong: option.case_cong)

lemma execute_insert_leaf_table:
  "get_node_type node = NODE_LEAF \<Longrightarrow>
   execute_insert stmt (leaf_table F h node) =
     (case leaf_node_find_loop node (ucast (ucast (row_id (row_to_insert stmt)) :: u16)) 0
             (read_u32 node leaf_node_num_cells) of
        None \<Rightarrow> None
      | Some c \<Rightarrow>
          if c < read_u32 node leaf_node_num_cells \<and>
             read_u32 node (leaf_node_key c) = ucast (ucast (row_id (row_to_insert stmt)) :: u16)
          then Some (Inr (EXECUTE_DUPLICATE_KEY, leaf_table F h node))
          else (case leaf_node_insert \<lparr> page_num = 0, cell_num = c, end_of_table = None \<rparr>
                       (row_id (row_to_insert stmt)) (row_to_insert stmt) (leaf_table F h node) of
                  Inl e \<Rightarrow> Some (Inl e)
                | Inr t \<Rightarrow> Some (Inr (EXECUTE_SUCCESS, t))))"
  unfolding execute_insert_def Let_def
  apply (simp only: get_page_root_leaf_table leaf_table_simps sum.case page_of_leaf_table)
  apply (simp only: table_find_leaf_table)
  apply (cases "leaf_node_find_loop node (ucast (ucast (row_id (row_to_insert stmt)) :: u16)) 0
             (read_u32 node leaf_node_num_cells)")
   apply (simp_all)
  done

lemma leaf_node_insert_room:
  "read_u32 node leaf_node_num_cells < LEAF_NODE_MAX_CELLS \<Longrightarrow>
   leaf_node_insert \<lparr> page_num = 0, cell_num = c, end_of_table = eot \<rparr> key val (leaf_table F h node) =
     Inr (leaf_table F h
       (serialize_row val
          (write_u32
             (write_u32
                (if c < read_u32 node leaf_node_num_cells
                 then leaf_node_insert_shift node (read_u32 node leaf_node_num_cells) c else node)
                leaf_node_num_cells
                (read_u32 (if c < read_u32 node leaf_node_num_cells
                 then leaf_node_insert_shift node (read_u32 node leaf_node_num_cells) c else node)
                   leaf_node_num_cells + 1))
             (leaf_node_key c) key)
          (leaf_node_value c)))"
proof -
  assume "read_u32 node leaf_node_num_cells < LEAF_NODE_MAX_CELLS"
  then have "\<not> LEAF_NODE_MAX_CELLS \<le> read_u32 node leaf_node_num_cells" by simp
  then show ?thesis
    by (simp add: leaf_node_insert_def Let_def)
qed

lemma leaf_node_insert_full:
  assumes "read_u32 node leaf_node_num_cells \<ge> LEAF_NODE_MAX_CELLS" "\<not> is_node_root node"
    "length F \<le> 4096"
  shows "leaf_node_insert \<lparr> page_num = 0, cell_num = c, end_of_table = eot \<rparr> key val (leaf_table F h node) =
     Inl Parent_update_unimplemented"
proof -
  have g1: "get_page (pager (leaf_table F h node)) 1 =
     Inr ((pager (leaf_table F h node))\<lparr>pages := (pages (pager (leaf_table F h node)))(1 \<mapsto> h 1), num_pages := 2\<rparr>)"
    using get_page_beyond [of "pager (leaf_table F h node)" 1] assms(3)
    by (simp add: leaf_table_def TABLE_MAX_PAGES_def PAGE_SIZE_def)
  have np: "get_unused_page_num (pager (leaf_table F h node)) = 1"
    by (simp add: get_unused_page_num_def leaf_table_def)
  show ?thesis
    using assms(1,2)
    apply (simp add: leaf_node_insert_def Let_def leaf_node_split_and_insert_def np g1)
    apply (simp add: layout_values page_of_def set_page_def leaf_table_def is_node_root_write_u32)
    done
qed

lemma cursor_value_leaf_table:
  "cursor_value \<lparr> page_num = 0, cell_num = c, end_of_table = eot \<rparr> (leaf_table F h node)
     = Inr (leaf_node_value c, leaf_table F h node)"
  by (simp add: cursor_value_def)

lemma cursor_advance_leaf_table:
  "cursor_advance \<lparr> page_num = 0, cell_num = c, end_of_table = eot \<rparr> (leaf_table F h node)
     = Inr (\<lparr> page_num = 0, cell_num = c + 1,
              end_of_table = (if c + 1 \<ge> read_u32 node leaf_node_num_cells then Some True else eot) \<rparr>,
            leaf_table F h node)"
  by (simp add: cursor_advance_def Let_def)

lemma select_two_cells:
  assumes "read_u32 node leaf_node_num_cells = 2"
  shows "execute_select row0 (leaf_table F h node) =
     Some (Inr ([deserialize_row node (leaf_node_value 0) row0,
                 deserialize_row node (leaf_node_value 1)
                   (deserialize_row node (leaf_node_value 0) row0)],
                leaf_table F h node))"
proof -
  have ts: "table_start (leaf_table F h node)
              = Inr (\<lparr> page_num = 0, cell_num = 0, end_of_table = Some False \<rparr>, leaf_table F h node)"
    by (simp add: table_start_def Let_def assms)
  show ?thesis
    apply (simp add: execute_select_def ts)
    apply (subst execute_select_loop.simps)
    apply (simp add: cursor_value_leaf_table cursor_advance_leaf_table assms Let_def word_le_nat_alt)
    apply (subst execute_select_loop.simps)
    apply (simp add: cursor_value_leaf_table cursor_advance_leaf_table assms Let_def word_le_nat_alt)
    apply (subst execute_select_loop.simps)
    apply simp
    done
qed

section \<open>The binary search and the 16-bit key\<close>

lemma find_loop_empty: "leaf_node_find_loop node key 0 0 = Some 0"
  by (simp add: leaf_node_find_loop.simps)

lemma find_loop_all_less:
  assumes "\<And>i. lo \<le> i \<Longrightarrow> i < hi \<Longrightarrow> read_u32 node (leaf_node_key i) < key"
    and "lo \<le> hi" and "unat hi < 2 ^ 31"
  shows "leaf_node_find_loop node key lo hi = Some hi"
  using assms
proof (induction "unat hi - unat lo" arbitrary: lo rule: less_induct)
  case less
  show ?case
  proof (cases "hi = lo")
    case True
    then show ?thesis by (simp add: leaf_node_find_loop.simps)
  next
    case False
    define index where "index = (lo + hi) div 2"
    have lo_lt: "unat lo < unat hi"
      using False less.prems(2) by (simp add: word_le_nat_alt word_less_nat_alt word_unat_eq_iff)
    have u: "unat (lo + hi) = unat lo + unat hi"
      using lo_lt less.prems(3) by (simp add: unat_add_lem [THEN iffD1])
    have ui: "unat index = (unat lo + unat hi) div 2"
      by (simp add: index_def unat_div u)
    have i1: "lo \<le> index" using lo_lt by (simp add: word_le_nat_alt ui)
    have i2: "index < hi" using lo_lt by (simp add: word_less_nat_alt ui)
    have ka: "read_u32 node (leaf_node_key index) < key"
      using i1 i2 by (rule less.prems(1))
    have u1: "unat (index + 1) = unat index + 1"
      using lo_lt less.prems(3) ui by (simp add: unat_add_lem [THEN iffD1])
    have i3: "index + 1 \<le> hi" using lo_lt by (simp add: word_le_nat_alt u1 ui)
    have i4: "lo \<le> index + 1" using lo_lt by (simp add: word_le_nat_alt u1 ui)
    have IH: "leaf_node_find_loop node key (index + 1) hi = Some hi"
    proof (rule less.hyps)
      show "unat hi - unat (index + 1) < unat hi - unat lo"
        using lo_lt by (simp add: u1 ui)
      show "index + 1 \<le> hi" by (rule i3)
      show "unat hi < 2 ^ 31" by (rule less.prems(3))
      fix i assume "index + 1 \<le> i" "i < hi"
      then show "read_u32 node (leaf_node_key i) < key"
        using i4 less.prems(1) by (meson order_trans)
    qed
    have k1: "key \<noteq> read_u32 node (leaf_node_key index)" using ka by auto
    have k2: "\<not> key < read_u32 node (leaf_node_key index)" using ka by auto
    show ?thesis
      by (subst leaf_node_find_loop.simps)
         (simp add: False Let_def index_def [symmetric] k1 k2 IH)
  qed
qed

lemma unat_key_to_insert:
  "unat (ucast (ucast (w :: u32) :: u16) :: u32) = unat w mod 65536"
  by (simp add: unsigned_ucast_eq take_bit_eq_mod unat_mod)


section \<open>Inserting ascending ids\<close>

lemma asc_leaf_init: "asc_leaf (initialize_leaf_node p) 0"
  by (simp add: asc_leaf_def not_root)
     (simp add: initialize_leaf_node_def get_node_type_def set_node_root_def set_node_type_def
        read_u8_def write_u8_def write_u32_apply_below store_bytes_apply layout_values)

lemma asc_leaf_step:
  assumes "asc_leaf node n" "unat n < 13"
  shows "\<exists>node'. execute_insert (ins (n + 1) u e) (leaf_table F h node)
           = Some (Inr (EXECUTE_SUCCESS, leaf_table F h node')) \<and> asc_leaf node' (n + 1)"
proof -
  have ty: "get_node_type node = NODE_LEAF" and nr: "\<not> is_node_root node"
    and nc: "read_u32 node leaf_node_num_cells = n"
    and ks: "\<And>i. i < n \<Longrightarrow> read_u32 node (leaf_node_key i) = i + 1"
    using assms(1) by (simp_all add: asc_leaf_def)
  have un1: "unat (n + 1) = unat n + 1"
    using assms(2) by (simp add: unat_add_lem [THEN iffD1])
  have k16: "(ucast (ucast (n + 1) :: u16) :: u32) = n + 1"
  proof -
    have "unat (ucast (ucast (n + 1) :: u16) :: u32) = unat (n + 1)"
      using assms(2) un1 by (simp add: unat_key_to_insert)
    then show ?thesis by (simp add: word_unat_eq_iff)
  qed
  have less: "\<And>i. 0 \<le> i \<Longrightarrow> i < n \<Longrightarrow> read_u32 node (leaf_node_key i) < n + 1"
  proof -
    fix i :: u32 assume "i < n"
    then have "unat i < unat n" by (simp add: word_less_nat_alt)
    then have "unat (i + 1) = unat i + 1" using assms(2) by (simp add: unat_add_lem [THEN iffD1])
    then have "i + 1 < n + 1" using \<open>unat i < unat n\<close> un1 by (simp add: word_less_nat_alt)
    then show "read_u32 node (leaf_node_key i) < n + 1" using ks [OF \<open>i < n\<close>] by simp
  qed
  have fl: "leaf_node_find_loop node (n + 1) 0 n = Some n"
    by (rule find_loop_all_less) (use less assms(2) in simp_all)
  have room: "read_u32 node leaf_node_num_cells < LEAF_NODE_MAX_CELLS"
    using assms(2) nc by (simp add: layout_values word_less_nat_alt)
  define node' where "node' = serialize_row \<lparr> row_id = n + 1, username = u, email = e \<rparr>
          (write_u32 (write_u32 node leaf_node_num_cells (n + 1)) (leaf_node_key n) (n + 1))
          (leaf_node_value n)"
  have ex: "execute_insert (ins (n + 1) u e) (leaf_table F h node)
           = Some (Inr (EXECUTE_SUCCESS, leaf_table F h node'))"
    by (simp add: execute_insert_leaf_table [OF ty] ins_def k16 nc fl
        leaf_node_insert_room [OF room] node'_def)
  have cn: "leaf_node_cell n = 8 + 297 * unat n"
    using assms(2) by (simp add: leaf_node_cell_small)
  have a1: "get_node_type node' = NODE_LEAF"
    using ty by (simp add: node'_def get_node_type_def read_u8_def layout_values
        serialize_row_apply_below write_u32_apply_below leaf_node_value_def leaf_node_key_def cn)
  have a2: "\<not> is_node_root node'"
    using nr by (simp add: node'_def is_node_root_def read_u8_def layout_values
        serialize_row_apply_below write_u32_apply_below leaf_node_value_def leaf_node_key_def cn)
  have a3: "read_u32 node' leaf_node_num_cells = n + 1"
    by (simp add: node'_def layout_values read_u32_serialize_row_below read_u32_write_u32_other
        leaf_node_value_def leaf_node_key_def cn)
  have a4: "read_u32 node' (leaf_node_key i) = i + 1" if "i < n + 1" for i
  proof (cases "i = n")
    case True
    then show ?thesis
      by (simp add: node'_def layout_values read_u32_serialize_row_below leaf_node_value_def
          leaf_node_key_def)
  next
    case False
    then have lt: "i < n" using that un1
      by (simp add: word_less_nat_alt word_unat_eq_iff)
    then have ui: "unat i < unat n" by (simp add: word_less_nat_alt)
    have ci: "leaf_node_cell i = 8 + 297 * unat i"
      using ui assms(2) by (simp add: leaf_node_cell_small)
    have "read_u32 node' (leaf_node_key i) = read_u32 node (leaf_node_key i)"
      using ui by (simp add: node'_def layout_values read_u32_serialize_row_below
          read_u32_write_u32_other leaf_node_value_def leaf_node_key_def cn ci)
    then show ?thesis using ks [OF lt] by simp
  qed
  have "asc_leaf node' (n + 1)"
    using a1 a2 a3 a4 by (simp add: asc_leaf_def)
  then show ?thesis using ex by blast
qed

lemma asc_leaf_full:
  assumes "asc_leaf node 13"
  shows "execute_insert (ins 14 u e) (leaf_table [] h node) = Some (Inl Parent_update_unimplemented)"
proof -
  have ty: "get_node_type node = NODE_LEAF" and nr: "\<not> is_node_root node"
    and nc: "read_u32 node leaf_node_num_cells = 13"
    and ks: "\<And>i. i < 13 \<Longrightarrow> read_u32 node (leaf_node_key i) = i + 1"
    using assms(1) by (simp_all add: asc_leaf_def)
  have less: "\<And>i. 0 \<le> i \<Longrightarrow> i < 13 \<Longrightarrow> read_u32 node (leaf_node_key i) < 14"
  proof -
    fix i :: u32 assume a: "i < 13"
    then have "unat i < 13" by (simp add: word_less_nat_alt)
    then have "unat (i + 1) = unat i + 1" by (simp add: unat_add_lem [THEN iffD1])
    then have "i + 1 < 14" using \<open>unat i < 13\<close> by (simp add: word_less_nat_alt)
    then show "read_u32 node (leaf_node_key i) < 14" using ks [OF a] by simp
  qed
  have fl: "leaf_node_find_loop node 14 0 13 = Some 13"
    by (rule find_loop_all_less) (use less in simp_all)
  have full: "read_u32 node leaf_node_num_cells \<ge> LEAF_NODE_MAX_CELLS"
    using nc by (simp add: layout_values)
  show ?thesis
    by (simp add: execute_insert_leaf_table [OF ty] ins_def nc fl
        leaf_node_insert_full [OF full nr, of "[]"])
qed

lemma ascending_Cons: "a < b \<Longrightarrow> ascending u e a b = ins (of_nat a) (u a) (e a) # ascending u e (Suc a) b"
  by (simp add: ascending_def upt_conv_Cons)

lemma run_to_exit:
  assumes "asc_leaf node (of_nat m)" "m + len = 13"
  shows "execute_inserts (ascending u e (Suc m) 15) (leaf_table [] h node)
           = Some (Inl Parent_update_unimplemented)"
  using assms
proof (induction len arbitrary: m node)
  case 0
  then have m: "m = 13" by simp
  have "ascending u e (Suc m) 15 = [ins 14 (u 14) (e 14)]"
    by (simp add: m ascending_def upt_conv_Cons)
  then show ?case using asc_leaf_full [of node "u 14" "e 14" h] 0 m by simp
next
  case (Suc len)
  then have m: "m < 13" by simp
  then have um: "unat (of_nat m :: u32) = m" by (simp add: unat_of_nat)
  obtain node' where st: "execute_insert (ins (of_nat m + 1) (u (Suc m)) (e (Suc m))) (leaf_table [] h node)
           = Some (Inr (EXECUTE_SUCCESS, leaf_table [] h node'))" and inv: "asc_leaf node' (of_nat m + 1)"
    using asc_leaf_step [OF Suc.prems(1), where u = "u (Suc m)" and e = "e (Suc m)" and h = h and F = "[]"] m um by auto
  have inv': "asc_leaf node' (of_nat (Suc m))" using inv by (simp add: add.commute)
  have ih: "execute_inserts (ascending u e (Suc (Suc m)) 15) (leaf_table [] h node')
           = Some (Inl Parent_update_unimplemented)"
    by (rule Suc.IH [OF inv']) (use Suc.prems in simp)
  have eq: "ascending u e (Suc m) 15
              = ins (of_nat m + 1) (u (Suc m)) (e (Suc m)) # ascending u e (Suc (Suc m)) 15"
    using m ascending_Cons [of "Suc m" 15 u e] by (simp add: add.commute)
  show ?case
    by (simp only: eq execute_inserts.simps st ih option.case sum.case prod.case)
qed

lemma run_success:
  assumes "asc_leaf node (of_nat m)" "m + len \<le> 13"
  shows "\<exists>node'. execute_inserts (ascending u e (Suc m) (Suc (m + len))) (leaf_table F h node)
           = Some (Inr (replicate len EXECUTE_SUCCESS, leaf_table F h node')) \<and> asc_leaf node' (of_nat (m + len))"
  using assms
proof (induction len arbitrary: m node)
  case 0
  then show ?case by (auto simp add: ascending_def)
next
  case (Suc len)
  then have m: "m < 13" by simp
  then have um: "unat (of_nat m :: u32) = m" by (simp add: unat_of_nat)
  obtain node' where st: "execute_insert (ins (of_nat m + 1) (u (Suc m)) (e (Suc m))) (leaf_table F h node)
           = Some (Inr (EXECUTE_SUCCESS, leaf_table F h node'))" and inv: "asc_leaf node' (of_nat m + 1)"
    using asc_leaf_step [OF Suc.prems(1), where u = "u (Suc m)" and e = "e (Suc m)" and h = h and F = F] m um by auto
  have inv': "asc_leaf node' (of_nat (Suc m))" using inv by (simp add: add.commute)
  obtain node'' where
    r: "execute_inserts (ascending u e (Suc (Suc m)) (Suc (Suc m + len))) (leaf_table F h node')
           = Some (Inr (replicate len EXECUTE_SUCCESS, leaf_table F h node''))"
    and i: "asc_leaf node'' (of_nat (Suc m + len))"
    using Suc.IH [OF inv'] Suc.prems by auto
  have eq: "ascending u e (Suc m) (Suc (m + Suc len))
              = ins (of_nat m + 1) (u (Suc m)) (e (Suc m))
                  # ascending u e (Suc (Suc m)) (Suc (Suc m + len))"
    using ascending_Cons [of "Suc m" "Suc (m + Suc len)" u e] by (simp add: add.commute)
  have "execute_inserts (ascending u e (Suc m) (Suc (m + Suc len))) (leaf_table F h node)
           = Some (Inr (replicate (Suc len) EXECUTE_SUCCESS, leaf_table F h node''))"
    by (simp only: eq execute_inserts.simps st r option.case sum.case prod.case replicate.simps)
  then show ?case using i by auto
qed

section \<open>One and two cells\<close>

lemma first_insert:
  "execute_insert (ins k u e) (leaf_table F h (initialize_leaf_node p))
     = Some (Inr (EXECUTE_SUCCESS, leaf_table F h (one_cell p k u e)))"
proof -
  have a: "asc_leaf (initialize_leaf_node p) 0" by (rule asc_leaf_init)
  then have ty: "get_node_type (initialize_leaf_node p) = NODE_LEAF"
    and nc: "read_u32 (initialize_leaf_node p) leaf_node_num_cells = 0"
    by (simp_all add: asc_leaf_def)
  have room: "read_u32 (initialize_leaf_node p) leaf_node_num_cells < LEAF_NODE_MAX_CELLS"
    using nc by (simp add: layout_values)
  show ?thesis
    by (simp add: execute_insert_leaf_table [OF ty] ins_def nc find_loop_empty
        leaf_node_insert_room [OF room] one_cell_def)
qed

lemma one_cell_facts:
  "get_node_type (one_cell p k u e) = NODE_LEAF"
  "read_u32 (one_cell p k u e) leaf_node_num_cells = 1"
  "read_u32 (one_cell p k u e) (leaf_node_key 0) = k"
  "read_u32 (one_cell p k u e) (leaf_node_value 0) = k"
proof -
  have a: "asc_leaf (initialize_leaf_node p) 0" by (rule asc_leaf_init)
  then have ty: "get_node_type (initialize_leaf_node p) = NODE_LEAF"
    by (simp_all add: asc_leaf_def)
  show "get_node_type (one_cell p k u e) = NODE_LEAF"
    using ty by (simp add: one_cell_def get_node_type_def read_u8_def layout_values
        leaf_node_offsets serialize_row_apply_below write_u32_apply_below)
  show "read_u32 (one_cell p k u e) leaf_node_num_cells = 1"
    by (simp add: one_cell_def layout_values leaf_node_offsets read_u32_serialize_row_below
        read_u32_write_u32_other)
  show "read_u32 (one_cell p k u e) (leaf_node_key 0) = k"
    by (simp add: one_cell_def layout_values leaf_node_offsets read_u32_serialize_row_below)
  show "read_u32 (one_cell p k u e) (leaf_node_value 0) = k"
    by (simp add: one_cell_def read_u32_serialize_row_id)
qed

lemma duplicate_of_truncated:
  "execute_insert (ins 65537 u e) (leaf_table F h (one_cell p 1 u1 e1))
     = Some (Inr (EXECUTE_DUPLICATE_KEY, leaf_table F h (one_cell p 1 u1 e1)))"
proof -
  have fl: "leaf_node_find_loop (one_cell p 1 u1 e1) 1 0 1 = Some 0"
    by (subst leaf_node_find_loop.simps) (simp add: one_cell_facts)
  show ?thesis
    by (simp add: execute_insert_leaf_table [OF one_cell_facts(1)] ins_def one_cell_facts fl)
qed

lemma shift_one:
  "leaf_node_insert_shift node 1 0 = memcpy node (leaf_node_cell 1) node (leaf_node_cell 0) (unat LEAF_NODE_CELL_SIZE)"
  by (simp add: leaf_node_insert_shift.simps)

lemma second_insert_in_front:
  assumes "unat k2 mod 65536 < unat k1" "unat k1 \<noteq> unat k2 mod 65536"
  shows "execute_insert (ins k2 u2 e2) (leaf_table F h (one_cell p k1 u1 e1))
     = Some (Inr (EXECUTE_SUCCESS, leaf_table F h (two_cells p k1 u1 e1 k2 u2 e2)))"
proof -
  let ?n = "one_cell p k1 u1 e1"
  let ?k = "ucast (ucast k2 :: u16) :: u32"
  have lt: "?k < k1" using assms(1) by (simp add: word_less_nat_alt unat_key_to_insert)
  then have ne: "?k \<noteq> k1" by auto
  have fl: "leaf_node_find_loop ?n ?k 0 1 = Some 0"
    apply (subst leaf_node_find_loop.simps)
    apply (simp add: one_cell_facts ne lt Let_def)
    apply (simp add: leaf_node_find_loop.simps)
    done
  have room: "read_u32 ?n leaf_node_num_cells < LEAF_NODE_MAX_CELLS"
    using one_cell_facts(2) [of p k1 u1 e1] by (simp add: layout_values)
  have nc': "read_u32 (memcpy ?n (leaf_node_cell 1) ?n (leaf_node_cell 0) (unat LEAF_NODE_CELL_SIZE))
               leaf_node_num_cells = 1"
    using one_cell_facts(2) [of p k1 u1 e1]
    by (simp add: layout_values leaf_node_offsets read_u32_memcpy_other)
  have ne': "k1 \<noteq> ?k" using ne by auto
  show ?thesis
    by (simp add: execute_insert_leaf_table [OF one_cell_facts(1)] ins_def one_cell_facts fl
        leaf_node_insert_room [OF room] two_cells_def shift_one nc' ne')
qed

lemma two_cells_facts:
  "read_u32 (two_cells p k1 u1 e1 k2 u2 e2) leaf_node_num_cells = 2"
  "read_u32 (two_cells p k1 u1 e1 k2 u2 e2) (leaf_node_value 0) = k2"
  "read_u32 (two_cells p k1 u1 e1 k2 u2 e2) (leaf_node_value 1) = k1"
proof -
  show "read_u32 (two_cells p k1 u1 e1 k2 u2 e2) leaf_node_num_cells = 2"
    by (simp add: two_cells_def layout_values leaf_node_offsets read_u32_serialize_row_below
        read_u32_write_u32_other)
  show "read_u32 (two_cells p k1 u1 e1 k2 u2 e2) (leaf_node_value 0) = k2"
    by (simp add: two_cells_def read_u32_serialize_row_id)
  have "read_u32 (two_cells p k1 u1 e1 k2 u2 e2) (leaf_node_value 1)
          = read_u32 (one_cell p k1 u1 e1) (leaf_node_value 0)"
    by (simp add: two_cells_def layout_values leaf_node_offsets read_u32_serialize_row_above
        read_u32_write_u32_other read_u32_memcpy_inside)
  then show "read_u32 (two_cells p k1 u1 e1 k2 u2 e2) (leaf_node_value 1) = k1"
    by (simp add: one_cell_facts)
qed

section \<open>The cursor of an insertion\<close>




section \<open>Tokens and numbers\<close>

lemma split_words_cur:
  "cur \<noteq> [] \<Longrightarrow>
   split_words s cur = (cur @ takeWhile (\<lambda>c. c \<noteq> CHR '' '') s)
                         # split_words (drop 1 (dropWhile (\<lambda>c. c \<noteq> CHR '' '') s)) []"
  by (induction s arbitrary: cur) auto

lemma split_words_skip:
  "split_words s [] = split_words (dropWhile (\<lambda>c. c = CHR '' '') s) []"
  by (induction s) auto

lemma strtok_words_of:
  "strtok s = (case words_of s of [] \<Rightarrow> (None, []) | w # ws \<Rightarrow> (Some w, snd (strtok s)))
   \<and> words_of (snd (strtok s)) = tl (words_of s)"
proof (cases "dropWhile (\<lambda>c. c = CHR '' '') s")
  case Nil
  have "split_words s [] = []"
    using split_words_skip [of s] unfolding Nil by simp
  then show ?thesis
    using Nil by (simp add: strtok_def words_of_def del: dropWhile_eq_Nil_conv)
next
  case (Cons c cs)
  then have "c \<noteq> CHR '' ''" using hd_dropWhile [of "\<lambda>c. c = CHR '' ''" s] by auto
  then have "split_words (c # cs) [] = takeWhile (\<lambda>c. c \<noteq> CHR '' '') (c # cs)
               # split_words (drop 1 (dropWhile (\<lambda>c. c \<noteq> CHR '' '') (c # cs))) []"
    using split_words_cur [of "[c]" cs] by simp
  then show ?thesis
    using split_words_skip [of s] Cons by (simp add: strtok_def words_of_def Let_def)
qed

lemma strtok_Cons:
  "words_of s = w # ws \<Longrightarrow> \<exists>rest. strtok s = (Some w, rest) \<and> words_of rest = ws"
  using strtok_words_of [of s] by (cases "strtok s") auto

lemma atoi_digits_no_digit: "(case cs of [] \<Rightarrow> True | d # ds \<Rightarrow> \<not> isdigit d) \<Longrightarrow> atoi_digits cs 0 = 0"
  by (cases cs) simp_all

lemma strtol_no_number:
  assumes "\<not> numeric_prefix tok"
  shows "strtol tok = 0"
proof (cases "dropWhile isspace tok")
  case Nil
  then show ?thesis by (simp add: strtol_def del: dropWhile_eq_Nil_conv)
next
  case (Cons c cs)
  show ?thesis
  proof (cases "c = CHR ''-'' \<or> c = CHR ''+''")
    case True
    then have "case cs of [] \<Rightarrow> True | d # ds \<Rightarrow> \<not> isdigit d"
      using assms Cons by (auto simp add: numeric_prefix_def split: list.splits)
    then have "atoi_digits cs 0 = 0" by (rule atoi_digits_no_digit)
    then show ?thesis using True Cons by (auto simp add: strtol_def)
  next
    case False
    then have "\<not> isdigit c" using assms Cons by (simp add: numeric_prefix_def)
    then show ?thesis using False Cons by (simp add: strtol_def)
  qed
qed

lemma atoi_no_number: "\<not> numeric_prefix tok \<Longrightarrow> atoi tok = 0"
  by (simp add: atoi_def strtol_no_number)

text \<open>Numbers outside \<open>int\<close>: \<open>2147483648\<close> becomes negative, \<open>-4294967295\<close> becomes 1.\<close>

lemma prepare_insert_outside_int:
  "fst (prepare_insert ''insert 2147483648 a b'' st) = PREPARE_NEGATIVE_ID"
  "fst (prepare_insert ''insert -4294967295 a b'' st) = PREPARE_SUCCESS"
  "row_id (row_to_insert (snd (prepare_insert ''insert -4294967295 a b'' st))) = 1"
  by (simp_all add: prepare_insert_def strtok_def atoi_def strtol_def isspace_def isdigit_def
      COLUMN_USERNAME_SIZE_def COLUMN_EMAIL_SIZE_def)

section \<open>Insertion into a leaf with room, from any table\<close>




section \<open>A full root leaf that is marked as root\<close>





















section \<open>The claims\<close>

text \<open>
  C1.  Claim: rows with pairwise distinct 32-bit ids, inserted in any order into a fresh
  database, are returned by a full scan in ascending id order.  The code at the input
  "insert the id 65536, then the id 65537": both inserts succeed, since \<open>execute_insert\<close>
  searches for the ids cut to 16 bits (0 and 1), and the second row is put in front of
  the first; the scan prints the id 65537 before the id 65536.
\<close>

theorem scan_after_inserts_out_of_order:
  "\<exists>t0 t2. db_open [] h = Inr t0
     \<and> execute_inserts [ins 65536 u1 e1, ins 65537 u2 e2] t0
         = Some (Inr ([EXECUTE_SUCCESS, EXECUTE_SUCCESS], t2))
     \<and> map_option (map_sum id (\<lambda>(rows, t'). map row_id rows)) (execute_select row0 t2)
         = Some (Inr [65537, 65536])"
proof -
  let ?t0 = "leaf_table [] h (initialize_leaf_node (h 0))"
  let ?t2 = "leaf_table [] h (two_cells (h 0) 65536 u1 e1 65537 u2 e2)"
  have 1: "execute_insert (ins 65536 u1 e1) ?t0
             = Some (Inr (EXECUTE_SUCCESS, leaf_table [] h (one_cell (h 0) 65536 u1 e1)))"
    by (rule first_insert)
  have 2: "execute_insert (ins 65537 u2 e2) (leaf_table [] h (one_cell (h 0) 65536 u1 e1))
             = Some (Inr (EXECUTE_SUCCESS, ?t2))"
    by (rule second_insert_in_front) simp_all
  have 3: "execute_inserts [ins 65536 u1 e1, ins 65537 u2 e2] ?t0
             = Some (Inr ([EXECUTE_SUCCESS, EXECUTE_SUCCESS], ?t2))"
    by (simp add: 1 2)
  have 4: "map_option (map_sum id (\<lambda>(rows, t'). map row_id rows)) (execute_select row0 ?t2)
             = Some (Inr [65537, 65536])"
    by (simp add: select_two_cells [OF two_cells_facts(1)] row_id_deserialize_row two_cells_facts)
  show ?thesis using db_open_leaf_table [of h] 3 4 by blast
qed

text \<open>
  C2.  Claim: inserting 14 rows with ascending ids into a fresh database splits the root
  once and leaves page 0 an internal node with two leaves.  The code at the ids
  1, \<dots>, 14: the first 13 inserts succeed; the 14th finds the leaf full, and since
  \<open>db_open\<close> never marks the root (\<open>initialize_leaf_node\<close> clears \<open>is_root\<close>),
  \<open>leaf_node_split_and_insert\<close> takes the branch that exits with "Need to implement
  updating parent after split".  No root is created.
\<close>

theorem fourteenth_insert_exits:
  "\<exists>t0. db_open [] h = Inr t0
     \<and> (\<exists>t13. execute_inserts (ascending u e 1 14) t0
                 = Some (Inr (replicate 13 EXECUTE_SUCCESS, t13)))
     \<and> execute_inserts (ascending u e 1 15) t0 = Some (Inl Parent_update_unimplemented)"
proof -
  have a: "asc_leaf (initialize_leaf_node (h 0)) (of_nat 0)" by (simp add: asc_leaf_init)
  show ?thesis
    using db_open_leaf_table [of h] run_success [OF a, where len = 13 and u = u and e = e and h = h and F = "[]"]
      run_to_exit [OF a, where len = 13 and u = u and e = e and h = h]
    by auto
qed

text \<open>
  C3.  Claim: \<open>execute_insert\<close> answers \<open>duplicate_key\<close> exactly for the ids that are in
  the tree.  The code, on a fresh database: after the id 1 has been inserted, the id
  65537, which is not in the tree, is rejected as a duplicate (and the table is left
  as it was); after the id 65537 has been inserted, inserting the id 65537 again
  succeeds.
\<close>

theorem duplicate_check_on_truncated_key:
  "(\<exists>t0 t1. db_open [] h = Inr t0
       \<and> execute_insert (ins 1 u1 e1) t0 = Some (Inr (EXECUTE_SUCCESS, t1))
       \<and> execute_insert (ins 65537 u2 e2) t1 = Some (Inr (EXECUTE_DUPLICATE_KEY, t1)))
   \<and> (\<exists>t0 t1 t2. db_open [] h = Inr t0
       \<and> execute_insert (ins 65537 u1 e1) t0 = Some (Inr (EXECUTE_SUCCESS, t1))
       \<and> execute_insert (ins 65537 u2 e2) t1 = Some (Inr (EXECUTE_SUCCESS, t2)))"
proof -
  let ?t0 = "leaf_table [] h (initialize_leaf_node (h 0))"
  have 1: "execute_insert (ins 1 u1 e1) ?t0
             = Some (Inr (EXECUTE_SUCCESS, leaf_table [] h (one_cell (h 0) 1 u1 e1)))"
    by (rule first_insert)
  have 2: "execute_insert (ins 65537 u2 e2) (leaf_table [] h (one_cell (h 0) 1 u1 e1))
             = Some (Inr (EXECUTE_DUPLICATE_KEY, leaf_table [] h (one_cell (h 0) 1 u1 e1)))"
    by (rule duplicate_of_truncated)
  have 3: "execute_insert (ins 65537 u1 e1) ?t0
             = Some (Inr (EXECUTE_SUCCESS, leaf_table [] h (one_cell (h 0) 65537 u1 e1)))"
    by (rule first_insert)
  have 4: "execute_insert (ins 65537 u2 e2) (leaf_table [] h (one_cell (h 0) 65537 u1 e1))
             = Some (Inr (EXECUTE_SUCCESS, leaf_table [] h (two_cells (h 0) 65537 u1 e1 65537 u2 e2)))"
    by (rule second_insert_in_front) simp_all
  show ?thesis using db_open_leaf_table [of h] 1 2 3 4 by blast
qed

text \<open>
  C4.  Claim: the common header occupies bytes 0--5, \<open>num_cells\<close> bytes 6--9, leaf cells
  start at byte 10 and internal cells at byte 14, an internal cell's key at cell offset 4.
  The code: \<open>COMMON_NODE_HEADER_SIZE\<close> adds \<open>PARENT_POINTER_OFFSET\<close> where the size of
  the parent pointer is meant, so it is 4; \<open>num_cells\<close> is at bytes 4--7, on top of the
  parent pointer at bytes 2--5; leaf cells start at byte 8 and internal cells at byte
  12; and \<open>internal_node_key\<close> adds 4 elements to a \<open>uint32_t*\<close>, 16 bytes, so the key
  of internal cell 0 is at byte 28.  The strides, 297 and 8, are as claimed.
\<close>

theorem accessor_offsets:
  "unat PARENT_POINTER_OFFSET = 2 \<and> unat PARENT_POINTER_SIZE = 4
   \<and> unat COMMON_NODE_HEADER_SIZE = 4
   \<and> leaf_node_num_cells = 4
   \<and> leaf_node_cell 0 = 8 \<and> leaf_node_cell 1 = 8 + 297
   \<and> internal_node_cell 0 = 12 \<and> internal_node_cell 1 = 12 + 8
   \<and> internal_node_key 0 = internal_node_cell 0 + 16"
  by (simp add: leaf_node_offsets layout_values internal_node_cell_def internal_node_key_def
      INTERNAL_NODE_HEADER_SIZE_def INTERNAL_NODE_NUM_KEYS_SIZE_def
      INTERNAL_NODE_RIGHT_CHILD_SIZE_def INTERNAL_NODE_CELL_SIZE_def INTERNAL_NODE_CHILD_SIZE_def
      INTERNAL_NODE_KEY_SIZE_def COMMON_NODE_HEADER_SIZE_def NODE_TYPE_SIZE_def IS_ROOT_SIZE_def
      PARENT_POINTER_OFFSET_def PARENT_POINTER_SIZE_def IS_ROOT_OFFSET_def)

text \<open>
  C5.  Claim: in every reachable state the root is page 0 and its \<open>is_root\<close> byte is 1.
  The code after \<open>db_open\<close> on an empty file: the root is page 0, and its \<open>is_root\<close>
  byte is 0, because \<open>initialize_leaf_node\<close> clears it and \<open>db_open\<close> does not set it.
\<close>

theorem root_flag_after_db_open:
  "\<exists>t. db_open [] h = Inr t \<and> root_page_num t = 0
       \<and> \<not> is_node_root (page_of (pager t) (root_page_num t))"
  using db_open_leaf_table [of h] by (simp add: not_root)

text \<open>
  C6.  For every valid row \<open>r\<close> (both character arrays of their declared sizes and
  null-terminated, any id), deserializing what \<open>serialize_row\<close> wrote gives \<open>r\<close> back,
  wherever in a page it was written and whatever the destination row held before.
\<close>

theorem row_round_trip:
  assumes "valid_Row r"
  shows "deserialize_row (serialize_row r mem d) d dst = r"
proof -
  have l: "length (username r) = 33" "length (email r) = 256"
    using assms by (simp_all add: valid_Row_def COLUMN_USERNAME_SIZE_def COLUMN_EMAIL_SIZE_def)
  have "row_id (deserialize_row (serialize_row r mem d) d dst) = row_id r"
    by (simp add: row_id_deserialize_row read_u32_serialize_row_id)
  moreover have "username (deserialize_row (serialize_row r mem d) d dst) = username r"
    by (simp add: deserialize_row_def row_layout_values load_bytes_serialize_row_username l)
  moreover have "email (deserialize_row (serialize_row r mem d) d dst) = email r"
    by (simp add: deserialize_row_def row_layout_values load_bytes_serialize_row_email l)
  ultimately show ?thesis by simp
qed

text \<open>A valid row, written at offset 12 of a page of bytes 255 and read back.\<close>

theorem row_round_trip_witness:
  "valid_Row \<lparr> row_id = 7, username = replicate 33 0, email = replicate 256 0 \<rparr> \<and>
   deserialize_row
     (serialize_row \<lparr> row_id = 7, username = replicate 33 0, email = replicate 256 0 \<rparr>
        (\<lambda>a. 255) 12)
     12 \<lparr> row_id = 0, username = [], email = [] \<rparr>
   = \<lparr> row_id = 7, username = replicate 33 0, email = replicate 256 0 \<rparr>"
proof -
  have v: "valid_Row \<lparr> row_id = 7, username = replicate 33 0, email = replicate 256 0 \<rparr>"
    by (simp add: valid_Row_def COLUMN_USERNAME_SIZE_def COLUMN_EMAIL_SIZE_def)
  show ?thesis using v row_round_trip [OF v, of "\<lambda>a. 255" 12 "\<lparr> row_id = 0, username = [], email = [] \<rparr>"]
    by simp
qed

text \<open>
  C7, as stated: on a cache miss for a page beyond the end of the file the buffer
  \<open>get_page\<close> installs is zero-filled, in particular page 0 after \<open>db_open\<close> on an
  empty file.  It fails: the buffer comes from \<open>malloc\<close> and is never cleared.  With
  an allocator that hands out buffers of bytes 255, the pager opened on an empty file
  installs for page 0 a buffer whose byte 0 is 255.
\<close>

theorem get_page_buffer_not_zeroed:
  "pager_open [] (\<lambda>n a. 255)
     = Inr \<lparr> file_descriptor = [], file_length = 0, num_pages = 0, pages = (\<lambda>i. None),
             heap = (\<lambda>n a. 255) \<rparr>
   \<and> map_sum id (\<lambda>pgr. page_of pgr 0 0)
       (get_page \<lparr> file_descriptor = [], file_length = 0, num_pages = 0, pages = (\<lambda>i. None),
                   heap = (\<lambda>n a. 255) \<rparr> 0)
     = Inr 255"
  by (simp add: pager_open_def PAGE_SIZE_def get_page_def TABLE_MAX_PAGES_def Let_def
      read_file_def page_of_def)

text \<open>
  C7, amended: on a cache miss for a page that lies beyond the end of the file, the
  buffer \<open>get_page\<close> installs is the buffer \<open>malloc\<close> returned, with its contents as they
  were (indeterminate, not necessarily zero); in particular, after \<open>db_open\<close>'s
  \<open>pager_open\<close> on an empty file, page 0 is that buffer when \<open>initialize_leaf_node\<close>
  receives it.
\<close>

theorem get_page_miss_keeps_malloc_contents:
  "(pn < TABLE_MAX_PAGES \<and> pages pgr (unat pn) = None
      \<and> length (file_descriptor pgr) \<le> unat pn * unat PAGE_SIZE
    \<longrightarrow> (\<exists>pgr'. get_page pgr pn = Inr pgr' \<and> pages pgr' (unat pn) = Some (heap pgr (unat pn))))
   \<and> (\<exists>pgr pgr'. pager_open [] h = Inr pgr \<and> get_page pgr 0 = Inr pgr'
         \<and> pages pgr' 0 = Some (h 0))"
proof -
  have "\<exists>pgr'. get_page \<lparr> file_descriptor = [], file_length = 0, num_pages = 0,
                          pages = (\<lambda>i. None), heap = h \<rparr> 0 = Inr pgr'
          \<and> pages pgr' 0 = Some (h 0)"
    using get_page_miss_beyond_file
      [of 0 "\<lparr> file_descriptor = [], file_length = 0, num_pages = 0, pages = (\<lambda>i. None), heap = h \<rparr>"]
    by (simp add: TABLE_MAX_PAGES_def)
  then have "\<exists>pgr pgr'. pager_open [] h = Inr pgr \<and> get_page pgr 0 = Inr pgr'
         \<and> pages pgr' 0 = Some (h 0)"
    by (simp add: pager_open_def PAGE_SIZE_def)
  then show ?thesis using get_page_miss_beyond_file [of pn pgr] by blast
qed

text \<open>
  Page 5 of a pager on an empty file, with an allocator that hands out buffers of
  bytes 255: the slot is empty, the page is beyond the end of the file, and the buffer
  installed is the allocator's.
\<close>

theorem get_page_miss_keeps_malloc_contents_witness:
  "(5 :: u32) < TABLE_MAX_PAGES
   \<and> pages \<lparr> file_descriptor = [], file_length = 0, num_pages = 0, pages = (\<lambda>i. None),
             heap = (\<lambda>n a. 255) \<rparr> (unat (5 :: u32)) = None
   \<and> length (file_descriptor \<lparr> file_descriptor = [], file_length = 0, num_pages = 0,
                pages = (\<lambda>i. None), heap = (\<lambda>n a. 255) \<rparr>) \<le> unat (5 :: u32) * unat PAGE_SIZE
   \<and> (\<exists>pgr'. get_page \<lparr> file_descriptor = [], file_length = 0, num_pages = 0,
                pages = (\<lambda>i. None), heap = (\<lambda>n a. 255) \<rparr> 5 = Inr pgr'
         \<and> pages pgr' (unat (5 :: u32)) = Some (\<lambda>a. 255))"
  using get_page_miss_keeps_malloc_contents
    [of 5 "\<lparr> file_descriptor = [], file_length = 0, num_pages = 0, pages = (\<lambda>i. None),
            heap = (\<lambda>n a. 255) \<rparr>"]
  by (simp add: TABLE_MAX_PAGES_def)

text \<open>
  C8.  Claim: \<open>get_page\<close> exits for every page number from \<open>TABLE_MAX_PAGES\<close> = 100 on,
  before it touches the slot array.  The code at page number 100: the guard is
  \<open>page_num > TABLE_MAX_PAGES\<close>, which 100 passes, and the function goes on to read
  slot 100 of an array of 100 slots.
\<close>

theorem get_page_at_TABLE_MAX_PAGES:
  "get_page pgr 100 = Inl Undefined_behaviour \<and> get_page pgr 100 \<noteq> Inl Page_number_out_of_bound"
  by (simp add: get_page_def TABLE_MAX_PAGES_def)




text \<open>
  C10, as stated: every insert line whose id token is a non-numeric string (and whose
  user name and email are within the length limits) is prepared with
  \<open>PREPARE_SUCCESS\<close> and row id 0.  It fails for non-numeric tokens that begin with a
  number, which \<open>atoi\<close> converts up to the first character that is no digit: the token
  \<open>12abc\<close> gives the row id 12, and the token \<open>-3rd\<close> gives \<open>-3\<close>, which is rejected
  with \<open>PREPARE_NEGATIVE_ID\<close>.
\<close>

theorem prepare_insert_numeric_prefix:
  "fst (prepare_insert ''insert 12abc alice a@x''
          \<lparr> type = STATEMENT_SELECT,
            row_to_insert = \<lparr> row_id = 7, username = replicate 33 0, email = replicate 256 0 \<rparr> \<rparr>)
     = PREPARE_SUCCESS
   \<and> row_id (row_to_insert (snd (prepare_insert ''insert 12abc alice a@x''
          \<lparr> type = STATEMENT_SELECT,
            row_to_insert = \<lparr> row_id = 7, username = replicate 33 0, email = replicate 256 0 \<rparr> \<rparr>)))
     = 12
   \<and> fst (prepare_insert ''insert -3rd alice a@x''
          \<lparr> type = STATEMENT_SELECT,
            row_to_insert = \<lparr> row_id = 7, username = replicate 33 0, email = replicate 256 0 \<rparr> \<rparr>)
     = PREPARE_NEGATIVE_ID"
  by (simp add: prepare_insert_def strtok_def atoi_def strtol_def isspace_def isdigit_def
      COLUMN_USERNAME_SIZE_def COLUMN_EMAIL_SIZE_def)

text \<open>
  C10, amended: for every insert line whose id token has no number at its start (after
  optional white space and an optional sign no decimal digit follows, so that \<open>atoi\<close>
  finds nothing to convert and returns 0) and whose user name and email are within the
  length limits, \<open>prepare_insert\<close> returns \<open>PREPARE_SUCCESS\<close> and the row's id is 0.
\<close>

theorem prepare_insert_non_numeric_id:
  assumes "words_of buffer = keyword # id_string # u # e # rest"
    and "\<not> numeric_prefix id_string"
    and "length u \<le> COLUMN_USERNAME_SIZE" and "length e \<le> COLUMN_EMAIL_SIZE"
  shows "fst (prepare_insert buffer statement) = PREPARE_SUCCESS
         \<and> row_id (row_to_insert (snd (prepare_insert buffer statement))) = 0"
proof -
  obtain r1 where 1: "strtok buffer = (Some keyword, r1)" "words_of r1 = id_string # u # e # rest"
    using strtok_Cons [OF assms(1)] by auto
  obtain r2 where 2: "strtok r1 = (Some id_string, r2)" "words_of r2 = u # e # rest"
    using strtok_Cons [OF 1(2)] by auto
  obtain r3 where 3: "strtok r2 = (Some u, r3)" "words_of r3 = e # rest"
    using strtok_Cons [OF 2(2)] by auto
  obtain r4 where 4: "strtok r3 = (Some e, r4)"
    using strtok_Cons [OF 3(2)] by auto
  have a: "atoi id_string = 0" by (rule atoi_no_number [OF assms(2)])
  show ?thesis
    using assms(3,4) by (simp add: prepare_insert_def 1 2 3 4 a Let_def)
qed

text \<open>The line \<open>insert abc alice a@x\<close>.\<close>

theorem prepare_insert_non_numeric_id_witness:
  "words_of ''insert abc alice a@x'' = [''insert'', ''abc'', ''alice'', ''a@x'']
   \<and> \<not> numeric_prefix ''abc''
   \<and> fst (prepare_insert ''insert abc alice a@x''
            \<lparr> type = STATEMENT_SELECT,
              row_to_insert = \<lparr> row_id = 7, username = replicate 33 0, email = replicate 256 0 \<rparr> \<rparr>)
       = PREPARE_SUCCESS
   \<and> row_id (row_to_insert (snd (prepare_insert ''insert abc alice a@x''
            \<lparr> type = STATEMENT_SELECT,
              row_to_insert = \<lparr> row_id = 7, username = replicate 33 0, email = replicate 256 0 \<rparr> \<rparr>)))
       = 0"
proof -
  have w: "words_of ''insert abc alice a@x'' = [''insert'', ''abc'', ''alice'', ''a@x'']"
    by (simp add: words_of_def)
  have n: "\<not> numeric_prefix ''abc''"
    by (simp add: numeric_prefix_def isspace_def isdigit_def)
  have l: "length ''alice'' \<le> COLUMN_USERNAME_SIZE" "length ''a@x'' \<le> COLUMN_EMAIL_SIZE"
    by (simp_all add: COLUMN_USERNAME_SIZE_def COLUMN_EMAIL_SIZE_def)
  show ?thesis
    using w n prepare_insert_non_numeric_id [OF w n l] by simp
qed

end
